theory Spec2Isabelle
  imports Main
begin

section \<open>Python strings and POSIX paths\<close>

text \<open>
  A Python \<open>str\<close> is a \<open>string\<close>. The notebook uses \<open>str.replace\<close>, \<open>str.split\<close> with a
  one-character separator, \<open>str.endswith\<close>, and \<open>os.path.basename\<close>, \<open>os.path.dirname\<close>
  and \<open>os.path.join\<close> (the notebooks run in a Linux container, so these are the functions
  of \<open>posixpath\<close>).
\<close>

text \<open>\<open>s.replace(old, new)\<close>: every non-overlapping occurrence, scanning from the left.\<close>

fun str_replace :: "string \<Rightarrow> string \<Rightarrow> string \<Rightarrow> string" where
  "str_replace old new [] = (if old = [] then new else [])"
| "str_replace old new (c # cs) =
     (if old = [] then new @ c # str_replace old new cs
      else if take (length old) (c # cs) = old
           then new @ str_replace old new (drop (length old - 1) cs)
           else c # str_replace old new cs)"

text \<open>\<open>s.split(sep)\<close> for a separator of one character: empty segments are kept, and the
  empty string splits into one empty segment.\<close>

fun str_split :: "char \<Rightarrow> string \<Rightarrow> string list" where
  "str_split sep [] = [[]]"
| "str_split sep (c # cs) =
     (if c = sep then [] # str_split sep cs
      else (case str_split sep cs of
              [] \<Rightarrow> [[c]]
            | p # ps \<Rightarrow> (c # p) # ps))"

definition str_endswith :: "string \<Rightarrow> string \<Rightarrow> bool" where
  "str_endswith s suf \<longleftrightarrow>
     length suf \<le> length s \<and> drop (length s - length suf) s = suf"

definition sep :: char where
  "sep = CHR ''/''"

text \<open>\<open>basename(p)\<close> is \<open>p[p.rfind('/') + 1:]\<close>.\<close>

definition basename :: "string \<Rightarrow> string" where
  "basename p = rev (takeWhile (\<lambda>c. c \<noteq> sep) (rev p))"

text \<open>\<open>dirname(p)\<close>: the head \<open>p[:p.rfind('/') + 1]\<close>, with its trailing slashes stripped
  unless it consists of slashes only.\<close>

definition dirname :: "string \<Rightarrow> string" where
  "dirname p =
     (let head = rev (dropWhile (\<lambda>c. c \<noteq> sep) (rev p))
      in if head \<noteq> [] \<and> head \<noteq> replicate (length head) sep
         then rev (dropWhile (\<lambda>c. c = sep) (rev head))
         else head)"


section \<open>Exceptions\<close>

text \<open>
  The exceptions that the modelled statements can raise, one constructor per cause. Only
  \<open>MissingDataset\<close> is raised by the notebook itself, as
  \<open>ValueError("Missing 'vibration_data'")\<close>; the others come from Python and the libraries,
  and their message text is the library's.
\<close>

datatype exn =
    IndexError          \<comment> \<open>\<open>parts[i]\<close> with \<open>i \<ge> len(parts)\<close>\<close>
  | MissingDataset      \<comment> \<open>\<open>ValueError("Missing 'vibration_data'")\<close>\<close>
  | TableNotFound       \<comment> \<open>\<open>AnalysisException\<close>: no table at the loaded path\<close>
  | AppendRejected      \<comment> \<open>\<open>AnalysisException\<close>: the table refuses the written batch\<close>
  | FileUnreadable      \<comment> \<open>\<open>OSError\<close>: \<open>h5py.File\<close> cannot open the file\<close>
  | NotADataset         \<comment> \<open>a group where a dataset is used (\<open>.shape\<close>, \<open>[()]\<close>)\<close>
  | ShapeMismatch       \<comment> \<open>\<open>ValueError\<close>: \<open>pd.DataFrame\<close> given data that is not N x 3\<close>
  | AttrNotIterable     \<comment> \<open>\<open>TypeError\<close>: \<open>list(...)\<close> of a scalar attribute\<close>

section \<open>Filename metadata\<close>

record meta =
  machine_id :: string
  month :: string
  year :: string
  operation :: string
  example_no :: string

text \<open>\<open>parts[i]\<close> for a non-negative index.\<close>

definition list_item :: "'b list \<Rightarrow> nat \<Rightarrow> exn + 'b" where
  "list_item xs i = (if i < length xs then Inr (xs ! i) else Inl IndexError)"

definition parse_filename :: "string \<Rightarrow> exn + meta" where
  "parse_filename filename =
     (let base = str_replace ''.h5'' '''' filename;
          parts = str_split CHR ''_'' base
      in (case list_item parts 0 of Inl e \<Rightarrow> Inl e | Inr p0 \<Rightarrow>
         (case list_item parts 1 of Inl e \<Rightarrow> Inl e | Inr p1 \<Rightarrow>
         (case list_item parts 2 of Inl e \<Rightarrow> Inl e | Inr p2 \<Rightarrow>
         (case list_item parts 3 of Inl e \<Rightarrow> Inl e | Inr p3 \<Rightarrow>
         (case list_item parts 4 of Inl e \<Rightarrow> Inl e | Inr p4 \<Rightarrow>
            Inr \<lparr>machine_id = p0, month = p1, year = p2, operation = p3,
                 example_no = p4\<rparr>))))))"

section \<open>Source files\<close>

text \<open>
  An HDF5 file as \<open>h5py\<close> shows it: it cannot be opened, or it lists named objects in the
  order of \<open>f.keys()\<close>. An object is a group or a dataset; of a dataset the notebook reads the
  shape, the values and the attribute \<open>column_names\<close>. An array is its shape with an indexing
  function, so that every value of the type is a well-formed array.
\<close>

datatype attr_value =
    AttrStrings "string list"   \<comment> \<open>an array of strings\<close>
  | AttrScalar                  \<comment> \<open>a scalar: \<open>list(...)\<close> raises on it\<close>

datatype 'a h5_object =
    Group
  | Dataset (shape: "nat list") (item: "nat list \<Rightarrow> 'a") (attrs: "(string \<times> attr_value) list")

datatype 'a h5_file =
    Unreadable
  | H5File "(string \<times> 'a h5_object) list"

section \<open>Rows, schema and the Delta table\<close>

text \<open>
  The arithmetic of doubles is not modelled: a cell of the table is the stored value tagged
  with the type it was cast to by \<open>astype("float64")\<close>. Stored values are numeric, so the
  cast itself does not raise.
\<close>

datatype 'a float64 = Float64 'a

text \<open>One row of the table. The columns \<open>x\<close>, \<open>y\<close>, \<open>z\<close> are the fields \<open>col_x\<close>, \<open>col_y\<close>,
  \<open>col_z\<close>; the five columns parsed from the file name are the fields of \<open>meta\<close>.\<close>

record 'a table_row = meta +
  label :: string
  col_x :: "'a float64"
  col_y :: "'a float64"
  col_z :: "'a float64"

datatype spark_type = DoubleType | StringType

type_synonym struct_type = "(string \<times> spark_type \<times> bool) list"

definition schema :: struct_type where
  "schema =
     [(''x'', DoubleType, True),
      (''y'', DoubleType, True),
      (''z'', DoubleType, True),
      (''machine_id'', StringType, True),
      (''month'', StringType, True),
      (''year'', StringType, True),
      (''operation'', StringType, True),
      (''example_no'', StringType, True),
      (''label'', StringType, True)]"

record 'a dataframe =
  df_schema :: struct_type
  df_rows :: "'a table_row list"

text \<open>
  The table at \<open>DELTA_DIR\<close>: its metadata (schema and partition columns) and its log of
  append transactions. A transaction records the schema and the partition columns the writer
  asked for, and the rows written.
\<close>

record 'a commit =
  commit_schema :: struct_type
  commit_partitionBy :: "string list"
  commit_rows :: "'a table_row list"

record 'a delta_table =
  tbl_schema :: struct_type
  tbl_partitionColumns :: "string list"
  tbl_log :: "'a commit list"

definition table_rows :: "'a delta_table \<Rightarrow> 'a table_row list" where
  "table_rows t = concat (map commit_rows (tbl_log t))"

text \<open>\<open>spark.read.format("delta").load(DELTA_DIR)\<close> raises where there is no table.\<close>

definition load_delta :: "'a delta_table option \<Rightarrow> exn + 'a delta_table" where
  "load_delta loc = (case loc of None \<Rightarrow> Inl TableNotFound | Some t \<Rightarrow> Inr t)"

text \<open>
  \<open>df.write.format("delta").partitionBy(cols).mode("append").save(DELTA_DIR)\<close>. Where there
  is no table the write creates it. An existing table takes the batch as one more transaction
  when the batch has the table's schema and partition columns, and refuses it otherwise
  (schema enforcement, taken at its strictest).
\<close>

definition save_append ::
  "'a dataframe \<Rightarrow> string list \<Rightarrow> 'a delta_table option \<Rightarrow> exn + 'a delta_table" where
  "save_append df cols loc =
     (let c = \<lparr>commit_schema = df_schema df, commit_partitionBy = cols,
                commit_rows = df_rows df\<rparr>
      in case loc of
           None \<Rightarrow>
             Inr \<lparr>tbl_schema = df_schema df, tbl_partitionColumns = cols, tbl_log = [c]\<rparr>
         | Some t \<Rightarrow>
             if df_schema df = tbl_schema t \<and> cols = tbl_partitionColumns t
             then Inr (t\<lparr>tbl_log := tbl_log t @ [c]\<rparr>)
             else Inl AppendRejected)"

text \<open>
  The physical layout. A transaction writes at least one data file into the subdirectory
  \<open>c1=v1/c2=v2/...\<close> of every combination of partition values among its rows, and nowhere
  else; \<open>commit_dirs\<close> lists these subdirectories as lists of (column, value).
\<close>

definition string_column :: "string \<Rightarrow> 'a table_row \<Rightarrow> string option" where
  "string_column c r =
     (if c = ''machine_id'' then Some (machine_id r)
      else if c = ''month'' then Some (month r)
      else if c = ''year'' then Some (year r)
      else if c = ''operation'' then Some (operation r)
      else if c = ''example_no'' then Some (example_no r)
      else if c = ''label'' then Some (label r)
      else None)"

definition partition_dir :: "string list \<Rightarrow> 'a table_row \<Rightarrow> (string \<times> string option) list" where
  "partition_dir cols r = map (\<lambda>c. (c, string_column c r)) cols"

definition commit_dirs :: "'a commit \<Rightarrow> (string \<times> string option) list list" where
  "commit_dirs c = remdups (map (partition_dir (commit_partitionBy c)) (commit_rows c))"

definition table_dirs :: "'a delta_table \<Rightarrow> (string \<times> string option) list list" where
  "table_dirs t = concat (map commit_dirs (tbl_log t))"

section \<open>The profiler\<close>


record profile =
  file_path :: string
  num_rows :: "nat option"
  num_columns :: "nat option"
  column_names :: "string list"
  error :: "exn option"

text \<open>
  The loop over \<open>f.keys()\<close> inside the \<open>try\<close>. An exception leaves the loop with the record
  as it is at that moment, and the handler stores the error in it.
\<close>

fun scan_keys :: "(string \<times> 'a h5_object) list \<Rightarrow> profile \<Rightarrow> profile" where
  "scan_keys [] record = record"
| "scan_keys ((key, dataset) # rest) record =
     (case dataset of
        Group \<Rightarrow> record\<lparr>error := Some NotADataset\<rparr>
      | Dataset shp it ats \<Rightarrow>
          if length shp = 2 then
            (let record1 = record\<lparr>num_rows := Some (shp ! 0), num_columns := Some (shp ! 1)\<rparr>
             in case map_of ats ''column_names'' of
                  None \<Rightarrow> record1\<lparr>column_names := []\<rparr>
                | Some (AttrStrings names) \<Rightarrow> record1\<lparr>column_names := names\<rparr>
                | Some AttrScalar \<Rightarrow> record1\<lparr>error := Some AttrNotIterable\<rparr>)
          else scan_keys rest record)"




section \<open>The ingestion worker\<close>

text \<open>
  The state the worker acts on: the table location, the two logs, and the counter of the
  worker thread (\<open>None\<close> until the attribute is set). Time is not modelled, so the three
  messages are the constructors of \<open>status\<close> without their duration; a line of the failure
  log is the pair of the path and the exception it prints.
\<close>

datatype status =
    Appended string
  | Skipped string
  | Failed string exn

record 'a state =
  delta_dir :: "'a delta_table option"
  success_log :: "status list"
  failed_log :: "(string \<times> exn) list"
  file_count :: "nat option"

text \<open>The block under \<open>with h5py.File(file_path, 'r')\<close> up to the cast.\<close>

definition read_vibration_data ::
  "'a h5_file \<Rightarrow> exn + ('a float64 \<times> 'a float64 \<times> 'a float64) list" where
  "read_vibration_data f =
     (case f of
        Unreadable \<Rightarrow> Inl FileUnreadable
      | H5File objs \<Rightarrow>
          (case map_of objs ''vibration_data'' of
             None \<Rightarrow> Inl MissingDataset
           | Some Group \<Rightarrow> Inl NotADataset
           | Some (Dataset shp data ats) \<Rightarrow>
               if length shp = 2 \<and> shp ! 1 = 3
               then Inr (map (\<lambda>i. (Float64 (data [i, 0]), Float64 (data [i, 1]),
                                     Float64 (data [i, 2]))) [0..<shp ! 0])
               else Inl ShapeMismatch))"

text \<open>The metadata columns, the same on every row, and \<open>spark.createDataFrame\<close>.\<close>

definition with_metadata ::
  "meta \<Rightarrow> string \<Rightarrow> ('a float64 \<times> 'a float64 \<times> 'a float64) list \<Rightarrow> 'a table_row list" where
  "with_metadata m lbl xyz =
     map (\<lambda>(a, b, c).
            \<lparr>machine_id = machine_id m, month = month m, year = year m,
             operation = operation m, example_no = example_no m,
             label = lbl, col_x = a, col_y = b, col_z = c\<rparr>) xyz"

definition createDataFrame :: "'a table_row list \<Rightarrow> struct_type \<Rightarrow> 'a dataframe" where
  "createDataFrame rows sch = \<lparr>df_schema = sch, df_rows = rows\<rparr>"

text \<open>The filter of the existence check: equality on the six metadata columns.\<close>

definition same_file :: "meta \<Rightarrow> string \<Rightarrow> 'a table_row \<Rightarrow> bool" where
  "same_file m lbl r \<longleftrightarrow>
     machine_id r = machine_id m \<and> operation r = operation m \<and>
     example_no r = example_no m \<and> year r = year m \<and>
     month r = month m \<and> label r = lbl"

text \<open>
  The body of the \<open>try\<close> up to the message. Nothing is written before the append, so an
  exception leaves the state as it was. The counter is set by \<open>process_file\<close> before the
  body runs. The cleanup every 25 files of a thread drops references and caches only, and
  changes nothing of the state.
\<close>

definition process_body ::
  "(string \<Rightarrow> 'a h5_file) \<Rightarrow> string \<Rightarrow> 'a state \<Rightarrow> exn + status \<times> 'a state" where
  "process_body raw path st =
     (case parse_filename (basename path) of
        Inl e \<Rightarrow> Inl e
      | Inr m \<Rightarrow>
          (let lbl = basename (dirname path) in
           case load_delta (delta_dir st) of
             Inl e \<Rightarrow> Inl e
           | Inr delta_df \<Rightarrow>
               (let exists = (0 < length (take 1 (filter (same_file m lbl) (table_rows delta_df))))
                in if exists then Inr (Skipped path, st)
                   else
                     (case read_vibration_data (raw path) of
                        Inl e \<Rightarrow> Inl e
                      | Inr xyz \<Rightarrow>
                          (let df_spark = createDataFrame (with_metadata m lbl xyz) schema in
                           case save_append df_spark [''machine_id'', ''operation'', ''label'']
                                  (delta_dir st) of
                             Inl e \<Rightarrow> Inl e
                           | Inr t \<Rightarrow>
                               Inr (Appended path,
                                    st\<lparr>delta_dir := Some t,
                                       file_count := map_option (\<lambda>n. n + 1) (file_count st)\<rparr>))))))"

text \<open>
  \<open>process_file\<close>: the counter of the thread is set if it is not, the body runs, and its
  outcome goes to the success log or, for any exception, to the failure log.
\<close>

definition init_file_count :: "'a state \<Rightarrow> 'a state" where
  "init_file_count st = (if file_count st = None then st\<lparr>file_count := Some 0\<rparr> else st)"

definition process_file ::
  "(string \<Rightarrow> 'a h5_file) \<Rightarrow> string \<Rightarrow> 'a state \<Rightarrow> status \<times> 'a state" where
  "process_file raw path st0 =
     (let st = init_file_count st0
      in case process_body raw path st of
           Inr (return_msg, st1) \<Rightarrow>
             (return_msg, st1\<lparr>success_log := success_log st1 @ [return_msg]\<rparr>)
         | Inl e \<Rightarrow>
             (Failed path e, st\<lparr>failed_log := failed_log st @ [(path, e)]\<rparr>))"

section \<open>The coordinator and the verification\<close>


fun run_files ::
  "(string \<Rightarrow> 'a h5_file) \<Rightarrow> string list \<Rightarrow> 'a state \<Rightarrow> status list \<times> 'a state" where
  "run_files raw [] st = ([], st)"
| "run_files raw (f # fs) st =
     (case process_file raw f st of
        (r, st1) \<Rightarrow> (case run_files raw fs st1 of (rs, st2) \<Rightarrow> (r # rs, st2)))"

text \<open>A run of the notebook: both logs are truncated and the thread has no counter yet.\<close>

definition fresh_state :: "'a delta_table option \<Rightarrow> 'a state" where
  "fresh_state loc = \<lparr>delta_dir = loc, success_log = [], failed_log = [], file_count = None\<rparr>"

text \<open>The verification notebook: the number of distinct metadata tuples of the table.\<close>

definition metadata_tuple ::
  "'a table_row \<Rightarrow> string \<times> string \<times> string \<times> string \<times> string \<times> string" where
  "metadata_tuple r = (machine_id r, month r, year r, operation r, example_no r, label r)"

definition count_distinct_files :: "'a delta_table \<Rightarrow> nat" where
  "count_distinct_files t = length (remdups (map metadata_tuple (table_rows t)))"

section \<open>Vocabulary of the properties\<close>

text \<open>
  The six-field metadata tuple that the worker derives from a path (none when the name does
  not parse), and the tuples of the rows of a table.
\<close>

definition file_tuple ::
  "string \<Rightarrow> (string \<times> string \<times> string \<times> string \<times> string \<times> string) option" where
  "file_tuple path =
     (case parse_filename (basename path) of
        Inl e \<Rightarrow> None
      | Inr m \<Rightarrow>
          Some (machine_id m, month m, year m, operation m, example_no m,
                basename (dirname path)))"

definition table_tuples ::
  "'a delta_table \<Rightarrow> (string \<times> string \<times> string \<times> string \<times> string \<times> string) list" where
  "table_tuples t = map metadata_tuple (table_rows t)"

definition file_tuples ::
  "string list \<Rightarrow> (string \<times> string \<times> string \<times> string \<times> string \<times> string) list" where
  "file_tuples fs = List.map_filter file_tuple fs"

text \<open>A status that is not a failure; a source file that parses and reads without error.\<close>

fun succeeded :: "status \<Rightarrow> bool" where
  "succeeded (Appended p) = True"
| "succeeded (Skipped p) = True"
| "succeeded (Failed p e) = False"

definition ingestible :: "(string \<Rightarrow> 'a h5_file) \<Rightarrow> string \<Rightarrow> bool" where
  "ingestible raw path \<longleftrightarrow>
     (case parse_filename (basename path) of
        Inl e \<Rightarrow> False
      | Inr m \<Rightarrow> (case read_vibration_data (raw path) of Inl e \<Rightarrow> False | Inr xyz \<Rightarrow> True))"

fun status_path :: "status \<Rightarrow> string" where
  "status_path (Appended p) = p"
| "status_path (Skipped p) = p"
| "status_path (Failed p e) = p"

text \<open>The partition subdirectory of the rows of a source file.\<close>

definition file_dir :: "meta \<Rightarrow> string \<Rightarrow> (string \<times> string option) list" where
  "file_dir m lbl =
     [(''machine_id'', Some (machine_id m)), (''operation'', Some (operation m)),
      (''label'', Some lbl)]"

text \<open>The table holds the partition subdirectory of a source file, with a data file.\<close>

definition has_partition_dir :: "'a delta_table \<Rightarrow> string \<Rightarrow> bool" where
  "has_partition_dir t path \<longleftrightarrow>
     (case parse_filename (basename path) of
        Inl e \<Rightarrow> False
      | Inr m \<Rightarrow> file_dir m (basename (dirname path)) \<in> set (table_dirs t))"

text \<open>
  The objects of a file that are two-dimensional datasets: the first of them in the order of
  the keys is the first two-dimensional dataset found inside the file.
\<close>

fun is_2d :: "string \<times> 'a h5_object \<Rightarrow> bool" where
  "is_2d (key, Group) = False"
| "is_2d (key, Dataset shp it ats) = (length shp = 2)"

text \<open>
  The parser in the words of the specification: the extension \<open>.h5\<close> is removed from the end
  of the base name, the rest is split at underscores, and the first five segments are the
  fields; fewer than five segments are a parsing error.
\<close>

definition remove_extension :: "string \<Rightarrow> string" where
  "remove_extension name =
     (if str_endswith name ''.h5'' then take (length name - 3) name else name)"

definition spec_parse_filename :: "string \<Rightarrow> exn + meta" where
  "spec_parse_filename name =
     (let segments = str_split CHR ''_'' (remove_extension name)
      in if length segments < 5 then Inl IndexError
         else Inr \<lparr>machine_id = segments ! 0, month = segments ! 1, year = segments ! 2,
                   operation = segments ! 3, example_no = segments ! 4\<rparr>)"

section \<open>Example inputs\<close>

text \<open>
  A path of the raw corpus, the table of the pipeline with nothing written yet, and source
  files: \<open>recording n\<close> holds the required dataset with \<open>n\<close> rows of three columns,
  \<open>no_vibration\<close> holds another dataset only.
\<close>

definition example_path :: string where
  "example_path = ''../data/raw/M01/OP00/good/M01_Feb_2019_OP00_004.h5''"

definition other_path :: string where
  "other_path = ''../data/raw/M02/OP07/bad/M02_Aug_2020_OP07_011.h5''"

definition short_path :: string where
  "short_path = ''../data/raw/M01/OP00/good/M01_Feb_2019.h5''"

definition example_meta :: meta where
  "example_meta = \<lparr>machine_id = ''M01'', month = ''Feb'', year = ''2019'',
                    operation = ''OP00'', example_no = ''004''\<rparr>"

definition empty_table :: "nat delta_table" where
  "empty_table = \<lparr>tbl_schema = schema,
                   tbl_partitionColumns = [''machine_id'', ''operation'', ''label''],
                   tbl_log = []\<rparr>"

definition recording :: "nat \<Rightarrow> nat h5_file" where
  "recording n = H5File [(''vibration_data'', Dataset [n, 3] (\<lambda>ix. 3 * (ix ! 0) + ix ! 1) [])]"

definition no_vibration :: "nat h5_file" where
  "no_vibration = H5File [(''other_data'', Dataset [4, 3] (\<lambda>ix. 0) [])]"

text \<open>A batch of ten files, numbered 0 to 9; the file numbered 4 lacks the required dataset.\<close>

definition numbered_path :: "char \<Rightarrow> string" where
  "numbered_path c = ''../data/raw/M01/OP00/good/M01_Feb_2019_OP00_00'' @ [c] @ ''.h5''"

definition batch_raw :: "string \<Rightarrow> nat h5_file" where
  "batch_raw p = (if p = numbered_path CHR ''4'' then no_vibration else recording 2)"

text \<open>A second path with the base name and the label of \<open>example_path\<close>.\<close>

definition twin_path :: string where
  "twin_path = ''../data/raw/M09/OP00/good/M01_Feb_2019_OP00_004.h5''"





section \<open>The steps of the worker\<close>

lemma exists_check: "(0 < length (take 1 xs)) = (xs \<noteq> [])"
  by (cases xs) auto

lemma process_file_parse_error:
  assumes "parse_filename (basename p) = Inl e"
  shows "fst (process_file raw p st) = Failed p e"
    and "delta_dir (snd (process_file raw p st)) = delta_dir st"
    and "success_log (snd (process_file raw p st)) = success_log st"
    and "failed_log (snd (process_file raw p st)) = failed_log st @ [(p, e)]"
  using assms by (simp_all add: process_file_def process_body_def init_file_count_def)

lemma process_file_no_table:
  assumes "parse_filename (basename p) = Inr m" and "delta_dir st = None"
  shows "fst (process_file raw p st) = Failed p TableNotFound"
    and "delta_dir (snd (process_file raw p st)) = None"
    and "success_log (snd (process_file raw p st)) = success_log st"
    and "failed_log (snd (process_file raw p st)) = failed_log st @ [(p, TableNotFound)]"
  using assms by (simp_all add: process_file_def process_body_def init_file_count_def load_delta_def)

lemma process_file_skip:
  assumes "parse_filename (basename p) = Inr m" and "delta_dir st = Some t"
    and "filter (same_file m (basename (dirname p))) (table_rows t) \<noteq> []"
  shows "fst (process_file raw p st) = Skipped p"
    and "delta_dir (snd (process_file raw p st)) = Some t"
    and "success_log (snd (process_file raw p st)) = success_log st @ [Skipped p]"
    and "failed_log (snd (process_file raw p st)) = failed_log st"
  using assms
  by (simp_all add: process_file_def process_body_def init_file_count_def load_delta_def exists_check)

lemma process_file_read_error:
  assumes "parse_filename (basename p) = Inr m" and "delta_dir st = Some t"
    and "filter (same_file m (basename (dirname p))) (table_rows t) = []"
    and "read_vibration_data (raw p) = Inl e"
  shows "fst (process_file raw p st) = Failed p e"
    and "delta_dir (snd (process_file raw p st)) = Some t"
    and "success_log (snd (process_file raw p st)) = success_log st"
    and "failed_log (snd (process_file raw p st)) = failed_log st @ [(p, e)]"
  using assms
  by (simp_all add: process_file_def process_body_def init_file_count_def load_delta_def exists_check)

lemma process_file_append:
  assumes "parse_filename (basename p) = Inr m" and "delta_dir st = Some t"
    and "filter (same_file m (basename (dirname p))) (table_rows t) = []"
    and "read_vibration_data (raw p) = Inr xyz"
    and "tbl_schema t = schema"
    and "tbl_partitionColumns t = [''machine_id'', ''operation'', ''label'']"
  shows "fst (process_file raw p st) = Appended p"
    and "delta_dir (snd (process_file raw p st)) =
           Some (t\<lparr>tbl_log := tbl_log t @
                   [\<lparr>commit_schema = schema,
                     commit_partitionBy = [''machine_id'', ''operation'', ''label''],
                     commit_rows = with_metadata m (basename (dirname p)) xyz\<rparr>]\<rparr>)"
    and "success_log (snd (process_file raw p st)) = success_log st @ [Appended p]"
    and "failed_log (snd (process_file raw p st)) = failed_log st"
  using assms
  by (simp_all add: process_file_def process_body_def init_file_count_def load_delta_def exists_check
      save_append_def createDataFrame_def)

lemma process_file_append_rejected:
  assumes "parse_filename (basename p) = Inr m" and "delta_dir st = Some t"
    and "filter (same_file m (basename (dirname p))) (table_rows t) = []"
    and "read_vibration_data (raw p) = Inr xyz"
    and "\<not> (tbl_schema t = schema \<and>
            tbl_partitionColumns t = [''machine_id'', ''operation'', ''label''])"
  shows "fst (process_file raw p st) = Failed p AppendRejected"
    and "delta_dir (snd (process_file raw p st)) = Some t"
    and "success_log (snd (process_file raw p st)) = success_log st"
    and "failed_log (snd (process_file raw p st)) = failed_log st @ [(p, AppendRejected)]"
  using assms
  by (auto simp add: process_file_def process_body_def init_file_count_def load_delta_def exists_check
      save_append_def createDataFrame_def)

lemma run_files_Cons:
  "fst (run_files raw (f # fs) st) =
     fst (process_file raw f st) # fst (run_files raw fs (snd (process_file raw f st)))"
  "snd (run_files raw (f # fs) st) = snd (run_files raw fs (snd (process_file raw f st)))"
  by (simp_all split: prod.splits)

lemma table_rows_append:
  "table_rows (t\<lparr>tbl_log := tbl_log t @ [c]\<rparr>) = table_rows t @ commit_rows c"
  by (simp add: table_rows_def)

lemma with_metadata_all_match:
  "filter (same_file m lbl) (with_metadata m lbl xyz) = with_metadata m lbl xyz"
  by (induction xyz) (auto simp: with_metadata_def same_file_def)

lemma length_with_metadata: "length (with_metadata m lbl xyz) = length xyz"
  by (simp add: with_metadata_def)

lemma read_vibration_data_rows:
  assumes "f = H5File objs"
    and "map_of objs ''vibration_data'' = Some (Dataset [n, 3] data ats)"
  shows "read_vibration_data f =
           Inr (map (\<lambda>i. (Float64 (data [i, 0]), Float64 (data [i, 1]), Float64 (data [i, 2])))
                  [0..<n])"
  using assms by (simp add: read_vibration_data_def)

section \<open>Case analysis of the worker and runs of good files\<close>

lemma same_file_iff:
  "same_file m lbl r \<longleftrightarrow>
     metadata_tuple r =
       (machine_id m, month m, year m, operation m, example_no m, lbl)"
  by (auto simp: same_file_def metadata_tuple_def)

lemma not_in_table_iff:
  assumes "file_tuple p = Some k"
    and "parse_filename (basename p) = Inr m"
  shows "filter (same_file m (basename (dirname p))) (table_rows t) = [] \<longleftrightarrow>
           k \<notin> set (table_tuples t)"
proof -
  have k: "k = (machine_id m, month m, year m, operation m, example_no m, basename (dirname p))"
    using assms by (simp add: file_tuple_def)
  show ?thesis
    unfolding k by (force simp: filter_empty_conv same_file_iff table_tuples_def)
qed

lemma table_tuples_append:
  "table_tuples (t\<lparr>tbl_log := tbl_log t @ [c]\<rparr>) = table_tuples t @ map metadata_tuple (commit_rows c)"
  by (simp add: table_tuples_def table_rows_append)

lemma with_metadata_tuples:
  "map metadata_tuple (with_metadata m lbl xyz) =
     replicate (length xyz) (machine_id m, month m, year m, operation m, example_no m, lbl)"
  by (induction xyz) (auto simp: with_metadata_def metadata_tuple_def)

lemma process_file_cases:
  assumes "delta_dir st = Some t"
  obtains
    (Failed) e where
      "fst (process_file raw p st) = Failed p e"
      "delta_dir (snd (process_file raw p st)) = Some t"
      "success_log (snd (process_file raw p st)) = success_log st"
      "failed_log (snd (process_file raw p st)) = failed_log st @ [(p, e)]"
      "\<And>m. parse_filename (basename p) = Inr m \<Longrightarrow>
            filter (same_file m (basename (dirname p))) (table_rows t) = []"
  | (Skipped) m where
      "parse_filename (basename p) = Inr m"
      "filter (same_file m (basename (dirname p))) (table_rows t) \<noteq> []"
      "fst (process_file raw p st) = Skipped p"
      "delta_dir (snd (process_file raw p st)) = Some t"
      "success_log (snd (process_file raw p st)) = success_log st @ [Skipped p]"
      "failed_log (snd (process_file raw p st)) = failed_log st"
  | (Appended) m xyz where
      "parse_filename (basename p) = Inr m"
      "filter (same_file m (basename (dirname p))) (table_rows t) = []"
      "read_vibration_data (raw p) = Inr xyz"
      "tbl_schema t = schema"
      "tbl_partitionColumns t = [''machine_id'', ''operation'', ''label'']"
      "fst (process_file raw p st) = Appended p"
      "delta_dir (snd (process_file raw p st)) =
         Some (t\<lparr>tbl_log := tbl_log t @
                 [\<lparr>commit_schema = schema,
                   commit_partitionBy = [''machine_id'', ''operation'', ''label''],
                   commit_rows = with_metadata m (basename (dirname p)) xyz\<rparr>]\<rparr>)"
      "success_log (snd (process_file raw p st)) = success_log st @ [Appended p]"
      "failed_log (snd (process_file raw p st)) = failed_log st"
proof (cases "parse_filename (basename p)")
  case (Inl e)
  from process_file_parse_error[where raw = raw and p = p and st = st, OF Inl] assms Inl
  show ?thesis by (intro Failed[of e]) simp_all
next
  case (Inr m)
  show ?thesis
  proof (cases "filter (same_file m (basename (dirname p))) (table_rows t) = []")
    case False
    from process_file_skip[where raw = raw and p = p, OF Inr assms False] Inr False
    show ?thesis by (intro Skipped[of m]) simp_all
  next
    case True
    show ?thesis
    proof (cases "read_vibration_data (raw p)")
      case (Inl e)
      from process_file_read_error[where raw = raw and p = p, OF Inr assms True Inl] Inr True
      show ?thesis by (intro Failed[of e]) simp_all
    next
      case xyz: (Inr xyz)
      show ?thesis
      proof (cases "tbl_schema t = schema \<and>
                    tbl_partitionColumns t = [''machine_id'', ''operation'', ''label'']")
        case ok: True
        from process_file_append[where raw = raw and p = p, OF Inr assms True xyz] ok Inr True xyz
        show ?thesis by (intro Appended[of m xyz]) simp_all
      next
        case no: False
        from process_file_append_rejected[where raw = raw and p = p, OF Inr assms True xyz no]
          Inr True
        show ?thesis by (intro Failed[of AppendRejected]) simp_all
      qed
    qed
  qed
qed


lemma run_files_append:
  "fst (run_files raw (xs @ ys) st) =
     fst (run_files raw xs st) @ fst (run_files raw ys (snd (run_files raw xs st)))"
  "snd (run_files raw (xs @ ys) st) = snd (run_files raw ys (snd (run_files raw xs st)))"
  by (induction xs arbitrary: st) (simp_all add: run_files_Cons del: run_files.simps(2))

lemma length_run_files: "length (fst (run_files raw fs st)) = length fs"
  by (induction fs arbitrary: st) (simp_all add: run_files_Cons del: run_files.simps(2))

text \<open>A file that parses and reads is appended or skipped, and the table stays the pipeline's.\<close>

lemma process_file_ingestible:
  assumes "ingestible raw p"
    and "delta_dir st = Some t"
    and "tbl_schema t = schema"
    and "tbl_partitionColumns t = [''machine_id'', ''operation'', ''label'']"
  shows "succeeded (fst (process_file raw p st)) \<and>
         failed_log (snd (process_file raw p st)) = failed_log st \<and>
         length (success_log (snd (process_file raw p st))) = Suc (length (success_log st)) \<and>
         (\<exists>t'. delta_dir (snd (process_file raw p st)) = Some t' \<and>
               tbl_schema t' = schema \<and>
               tbl_partitionColumns t' = [''machine_id'', ''operation'', ''label''] \<and>
               set (table_tuples t') \<subseteq> set (table_tuples t) \<union> set_option (file_tuple p))"
proof (rule process_file_cases[OF assms(2), of raw p])
  fix e
  assume f: "fst (process_file raw p st) = Failed p e"
    and nf: "\<And>m. parse_filename (basename p) = Inr m \<Longrightarrow>
            filter (same_file m (basename (dirname p))) (table_rows t) = []"
  from assms(1) obtain m xyz where m: "parse_filename (basename p) = Inr m"
    and r: "read_vibration_data (raw p) = Inr xyz"
    by (auto simp: ingestible_def split: sum.splits)
  from process_file_append(1)[where raw = raw and p = p, OF m assms(2) nf[OF m] r assms(3,4)] f
  show ?thesis by simp
next
  fix m
  assume "fst (process_file raw p st) = Skipped p"
    "delta_dir (snd (process_file raw p st)) = Some t"
    "success_log (snd (process_file raw p st)) = success_log st @ [Skipped p]"
    "failed_log (snd (process_file raw p st)) = failed_log st"
  with assms(3,4) show ?thesis by auto
next
  fix m xyz
  assume "parse_filename (basename p) = Inr m"
    "fst (process_file raw p st) = Appended p"
    "delta_dir (snd (process_file raw p st)) =
         Some (t\<lparr>tbl_log := tbl_log t @
                 [\<lparr>commit_schema = schema,
                   commit_partitionBy = [''machine_id'', ''operation'', ''label''],
                   commit_rows = with_metadata m (basename (dirname p)) xyz\<rparr>]\<rparr>)"
    "success_log (snd (process_file raw p st)) = success_log st @ [Appended p]"
    "failed_log (snd (process_file raw p st)) = failed_log st"
  with assms(3,4) show ?thesis
    by (auto simp: table_tuples_append with_metadata_tuples file_tuple_def)
qed

lemma run_files_ingestible:
  assumes "list_all (ingestible raw) fs"
    and "delta_dir st = Some t"
    and "tbl_schema t = schema"
    and "tbl_partitionColumns t = [''machine_id'', ''operation'', ''label'']"
  shows "list_all succeeded (fst (run_files raw fs st)) \<and>
         failed_log (snd (run_files raw fs st)) = failed_log st \<and>
         length (success_log (snd (run_files raw fs st))) = length (success_log st) + length fs \<and>
         (\<exists>t'. delta_dir (snd (run_files raw fs st)) = Some t' \<and>
               tbl_schema t' = schema \<and>
               tbl_partitionColumns t' = [''machine_id'', ''operation'', ''label''] \<and>
               set (table_tuples t') \<subseteq>
                 set (table_tuples t) \<union> \<Union> (set (map (set_option \<circ> file_tuple) fs)))"
  using assms
proof (induction fs arbitrary: st t)
  case Nil
  then show ?case by simp
next
  case (Cons f fs)
  from Cons.prems(1) have f: "ingestible raw f" and fs: "list_all (ingestible raw) fs"
    by simp_all
  from process_file_ingestible[OF f Cons.prems(2-4)]
  obtain t1 where s1: "succeeded (fst (process_file raw f st))"
    and f1: "failed_log (snd (process_file raw f st)) = failed_log st"
    and l1: "length (success_log (snd (process_file raw f st))) = Suc (length (success_log st))"
    and d1: "delta_dir (snd (process_file raw f st)) = Some t1"
    and c1: "tbl_schema t1 = schema"
      "tbl_partitionColumns t1 = [''machine_id'', ''operation'', ''label'']"
    and sub1: "set (table_tuples t1) \<subseteq> set (table_tuples t) \<union> set_option (file_tuple f)"
    by blast
  from Cons.IH[OF fs d1 c1] sub1 s1 f1 l1 show ?case
    by (simp add: run_files_Cons del: run_files.simps(2)) blast
qed

section \<open>Facts about the example inputs\<close>

lemma example_path_parses: "parse_filename (basename example_path) = Inr example_meta"
  by code_simp

lemma example_path_label: "basename (dirname example_path) = ''good''"
  by code_simp

lemma short_path_fails: "parse_filename (basename short_path) = Inl IndexError"
  by code_simp

lemma empty_table_rows: "table_rows empty_table = []"
  by (simp add: table_rows_def empty_table_def)

section \<open>A run against a missing table\<close>

lemma step_no_table:
  assumes "delta_dir st = None"
  shows "fst (process_file raw p st) =
           Failed p (case parse_filename (basename p) of Inl e \<Rightarrow> e | Inr m \<Rightarrow> TableNotFound)"
    and "delta_dir (snd (process_file raw p st)) = None"
    and "success_log (snd (process_file raw p st)) = success_log st"
    and "failed_log (snd (process_file raw p st)) =
           failed_log st @
           [(p, case parse_filename (basename p) of Inl e \<Rightarrow> e | Inr m \<Rightarrow> TableNotFound)]"
  using assms process_file_parse_error[of p _ raw st] process_file_no_table[of p _ st raw]
  by (cases "parse_filename (basename p)"; simp)+

text \<open>
  C10. With no table at the output location, the existence check of a worker raises before
  any write: the body of a file whose name parses ends in \<open>TableNotFound\<close> and the worker
  returns that failure. A whole run then returns a failure for every file (the parse error
  for a name that does not parse), logs each of them in the failure log, writes nothing to
  the success log, and leaves the location without a table.
\<close>

theorem missing_table_fails_every_file:
  assumes "delta_dir st = None"
  shows "(\<forall>m. parse_filename (basename p) = Inr m \<longrightarrow>
            process_body raw p st = Inl TableNotFound \<and>
            fst (process_file raw p st) = Failed p TableNotFound) \<and>
         fst (run_files raw fs st) =
           map (\<lambda>f. Failed f (case parse_filename (basename f) of
                                 Inl e \<Rightarrow> e | Inr m \<Rightarrow> TableNotFound)) fs \<and>
         failed_log (snd (run_files raw fs st)) =
           failed_log st @
           map (\<lambda>f. (f, case parse_filename (basename f) of
                           Inl e \<Rightarrow> e | Inr m \<Rightarrow> TableNotFound)) fs \<and>
         success_log (snd (run_files raw fs st)) = success_log st \<and>
         delta_dir (snd (run_files raw fs st)) = None"
proof -
  have one: "\<forall>m. parse_filename (basename p) = Inr m \<longrightarrow>
            process_body raw p st = Inl TableNotFound \<and>
            fst (process_file raw p st) = Failed p TableNotFound"
    using assms process_file_no_table(1)[of p _ st raw]
    by (auto simp: process_body_def load_delta_def)
  have run: "fst (run_files raw fs st) =
           map (\<lambda>f. Failed f (case parse_filename (basename f) of
                                 Inl e \<Rightarrow> e | Inr m \<Rightarrow> TableNotFound)) fs \<and>
         failed_log (snd (run_files raw fs st)) =
           failed_log st @
           map (\<lambda>f. (f, case parse_filename (basename f) of
                           Inl e \<Rightarrow> e | Inr m \<Rightarrow> TableNotFound)) fs \<and>
         success_log (snd (run_files raw fs st)) = success_log st \<and>
         delta_dir (snd (run_files raw fs st)) = None"
    using assms
  proof (induction fs arbitrary: st)
    case Nil
    then show ?case by simp
  next
    case (Cons f fs)
    note step = step_no_table[OF Cons.prems, of raw f]
    from Cons.IH[OF step(2)] step show ?case
      by (simp add: run_files_Cons del: run_files.simps)
  qed
  from one run show ?thesis by blast
qed

theorem missing_table_fails_every_file_witness:
  "delta_dir (fresh_state None :: nat state) = None \<and>
   parse_filename (basename example_path) = Inr example_meta \<and>
   process_body (\<lambda>p. recording 5) example_path (fresh_state None) = Inl TableNotFound \<and>
   fst (run_files (\<lambda>p. recording 5) [example_path, short_path] (fresh_state None)) =
     [Failed example_path TableNotFound, Failed short_path IndexError] \<and>
   failed_log (snd (run_files (\<lambda>p. recording 5) [example_path, short_path]
                      (fresh_state None))) =
     [(example_path, TableNotFound), (short_path, IndexError)] \<and>
   success_log (snd (run_files (\<lambda>p. recording 5) [example_path, short_path]
                       (fresh_state None))) = [] \<and>
   delta_dir (snd (run_files (\<lambda>p. recording 5) [example_path, short_path]
                     (fresh_state None))) = None"
proof -
  have h: "delta_dir (fresh_state None :: nat state) = None"
    by (simp add: fresh_state_def)
  from missing_table_fails_every_file[OF h, of example_path "\<lambda>p. recording 5"
      "[example_path, short_path]"]
  show ?thesis
    using h example_path_parses short_path_fails by (simp add: fresh_state_def)
qed

section \<open>A source file without the required dataset\<close>

text \<open>
  C7. A source file that opens but holds no object named \<open>vibration_data\<close>, whose name
  parses and whose metadata tuple matches no row of the existing table: reading it raises
  the missing-dataset error, the worker returns the failure for that path, the table is the
  one it was, the failure log has one more line with the path and the error, and the
  success log is unchanged.
\<close>

theorem missing_dataset_is_a_logged_failure:
  assumes "parse_filename (basename p) = Inr m"
    and "delta_dir st = Some t"
    and "filter (same_file m (basename (dirname p))) (table_rows t) = []"
    and "raw p = H5File objs"
    and "map_of objs ''vibration_data'' = None"
  shows "read_vibration_data (raw p) = Inl MissingDataset \<and>
         fst (process_file raw p st) = Failed p MissingDataset \<and>
         delta_dir (snd (process_file raw p st)) = Some t \<and>
         failed_log (snd (process_file raw p st)) = failed_log st @ [(p, MissingDataset)] \<and>
         success_log (snd (process_file raw p st)) = success_log st"
proof -
  have r: "read_vibration_data (raw p) = Inl MissingDataset"
    using assms(4,5) by (simp add: read_vibration_data_def)
  from process_file_read_error[where raw = raw and p = p, OF assms(1-3) r] r show ?thesis by simp
qed

theorem missing_dataset_is_a_logged_failure_witness:
  "parse_filename (basename example_path) = Inr example_meta \<and>
   delta_dir (fresh_state (Some empty_table)) = Some empty_table \<and>
   filter (same_file example_meta (basename (dirname example_path))) (table_rows empty_table) = [] \<and>
   no_vibration = H5File [(''other_data'', Dataset [4, 3] (\<lambda>ix. 0) [])] \<and>
   map_of [(''other_data'', Dataset [4, 3] (\<lambda>ix. 0::nat) [])] ''vibration_data'' = None \<and>
   fst (process_file (\<lambda>p. no_vibration) example_path (fresh_state (Some empty_table))) =
     Failed example_path MissingDataset \<and>
   delta_dir (snd (process_file (\<lambda>p. no_vibration) example_path
                     (fresh_state (Some empty_table)))) = Some empty_table \<and>
   failed_log (snd (process_file (\<lambda>p. no_vibration) example_path
                      (fresh_state (Some empty_table)))) = [(example_path, MissingDataset)] \<and>
   success_log (snd (process_file (\<lambda>p. no_vibration) example_path
                       (fresh_state (Some empty_table)))) = []"
proof -
  have h2: "delta_dir (fresh_state (Some empty_table)) = Some empty_table"
    by (simp add: fresh_state_def)
  have h3: "filter (same_file example_meta (basename (dirname example_path)))
              (table_rows empty_table) = []"
    by (simp add: empty_table_rows)
  have h4: "(\<lambda>p. no_vibration) example_path = H5File [(''other_data'', Dataset [4, 3] (\<lambda>ix. 0) [])]"
    by (simp add: no_vibration_def)
  have h5: "map_of [(''other_data'', Dataset [4, 3] (\<lambda>ix. 0::nat) [])] ''vibration_data'' = None"
    by simp
  from missing_dataset_is_a_logged_failure[where raw = "\<lambda>p. no_vibration" and p = example_path,
      OF example_path_parses h2 h3 h4 h5]
  show ?thesis
    using example_path_parses h2 h3 h4 h5 by (simp add: fresh_state_def)
qed

section \<open>Metadata of the appended rows\<close>

text \<open>
  C3. A path whose base name is \<open>M01_Feb_2019_OP00_004.h5\<close> and whose parent directory is
  named \<open>good\<close>, a file with the required dataset of shape (5, 3), and the table of the
  pipeline with no row of that metadata tuple: the worker reports the append, and the table
  then reads as its former rows followed by exactly five rows, the \<open>i\<close>-th carrying the
  three values of row \<open>i\<close> of the dataset as doubles and machine_id M01, month Feb, year 2019,
  operation OP00, example_no 004, label good.
\<close>

theorem metadata_fidelity:
  assumes "basename p = ''M01_Feb_2019_OP00_004.h5''"
    and "basename (dirname p) = ''good''"
    and "delta_dir st = Some t"
    and "tbl_schema t = schema"
    and "tbl_partitionColumns t = [''machine_id'', ''operation'', ''label'']"
    and "filter (same_file example_meta ''good'') (table_rows t) = []"
    and "raw p = H5File objs"
    and "map_of objs ''vibration_data'' = Some (Dataset [5, 3] data ats)"
  shows "fst (process_file raw p st) = Appended p \<and>
         map_option table_rows (delta_dir (snd (process_file raw p st))) =
           Some (table_rows t @
                 map (\<lambda>i. \<lparr>machine_id = ''M01'', month = ''Feb'', year = ''2019'',
                            operation = ''OP00'', example_no = ''004'', label = ''good'',
                            col_x = Float64 (data [i, 0]), col_y = Float64 (data [i, 1]),
                            col_z = Float64 (data [i, 2])\<rparr>) [0..<5])"
proof -
  have m: "parse_filename (basename p) = Inr example_meta"
    unfolding assms(1) by code_simp
  have r: "read_vibration_data (raw p) =
             Inr (map (\<lambda>i. (Float64 (data [i, 0]), Float64 (data [i, 1]), Float64 (data [i, 2])))
                    [0..<5])"
    using assms(7,8) by (simp add: read_vibration_data_def)
  from process_file_append[where raw = raw and p = p, OF m assms(3) assms(6)[folded assms(2)] r assms(4,5)]
  show ?thesis
    by (simp add: table_rows_append with_metadata_def example_meta_def assms(2) comp_def)
qed

theorem metadata_fidelity_witness:
  "basename example_path = ''M01_Feb_2019_OP00_004.h5'' \<and>
   basename (dirname example_path) = ''good'' \<and>
   fst (process_file (\<lambda>p. recording 5) example_path (fresh_state (Some empty_table))) =
     Appended example_path \<and>
   map_option table_rows
     (delta_dir (snd (process_file (\<lambda>p. recording 5) example_path
                        (fresh_state (Some empty_table))))) =
     Some (map (\<lambda>i. \<lparr>machine_id = ''M01'', month = ''Feb'', year = ''2019'',
                      operation = ''OP00'', example_no = ''004'', label = ''good'',
                      col_x = Float64 (3 * i), col_y = Float64 (3 * i + 1),
                      col_z = Float64 (3 * i + 2)\<rparr>) [0..<5])"
proof -
  have h1: "basename example_path = ''M01_Feb_2019_OP00_004.h5''"
    by code_simp
  have h3: "delta_dir (fresh_state (Some empty_table)) = Some empty_table"
    by (simp add: fresh_state_def)
  have h4: "tbl_schema empty_table = schema"
    and h5: "tbl_partitionColumns empty_table = [''machine_id'', ''operation'', ''label'']"
    by (simp_all add: empty_table_def)
  have h6: "filter (same_file example_meta ''good'') (table_rows empty_table) = []"
    by (simp add: empty_table_rows)
  have h7: "(\<lambda>p. recording 5) example_path =
              H5File [(''vibration_data'', Dataset [5, 3] (\<lambda>ix. 3 * (ix ! 0) + ix ! 1) [])]"
    by (simp add: recording_def)
  have h8: "map_of [(''vibration_data'', Dataset [5, 3] (\<lambda>ix. 3 * (ix ! 0) + ix ! 1) [])]
              ''vibration_data'' = Some (Dataset [5, 3] (\<lambda>ix. 3 * (ix ! 0) + ix ! 1 :: nat) [])"
    by simp
  from metadata_fidelity[where raw = "\<lambda>p. recording 5" and p = example_path,
      OF h1 example_path_label h3 h4 h5 h6 h7 h8]
  show ?thesis
    using h1 example_path_label by (simp add: empty_table_rows)
qed

section \<open>Ingesting a file twice\<close>

text \<open>
  C1, as stated, fails for a source file whose dataset has no rows: the first invocation
  appends nothing that the check of the second could find, so the second reports an append
  again, not a skip, and the success log holds two append lines.
\<close>

theorem ingest_twice_counterexample:
  "fst (run_files (\<lambda>p. recording 0) [example_path, example_path]
          (fresh_state (Some empty_table))) =
     [Appended example_path, Appended example_path] \<and>
   success_log (snd (run_files (\<lambda>p. recording 0) [example_path, example_path]
                       (fresh_state (Some empty_table)))) =
     [Appended example_path, Appended example_path] \<and>
   map_option table_rows
     (delta_dir (snd (run_files (\<lambda>p. recording 0) [example_path, example_path]
                        (fresh_state (Some empty_table))))) = Some []"
  by code_simp

text \<open>
  C1, amended. A source file whose name parses, whose dataset has \<open>n > 0\<close> rows of three
  columns and whose metadata tuple matches no row of the pipeline's table: run twice in
  sequence, the worker reports an append and then a skip; the log of the table has gained
  exactly one transaction, the rows of the table that match the tuple are exactly the
  \<open>n\<close> rows of the file, the success log has gained the append line and the skip line, and
  the failure log is unchanged.
\<close>

theorem ingest_twice:
  assumes "parse_filename (basename p) = Inr m"
    and "delta_dir st = Some t"
    and "tbl_schema t = schema"
    and "tbl_partitionColumns t = [''machine_id'', ''operation'', ''label'']"
    and "filter (same_file m (basename (dirname p))) (table_rows t) = []"
    and "raw p = H5File objs"
    and "map_of objs ''vibration_data'' = Some (Dataset [n, 3] data ats)"
    and "0 < n"
  shows "fst (run_files raw [p, p] st) = [Appended p, Skipped p] \<and>
         map_option tbl_log (delta_dir (snd (run_files raw [p, p] st))) =
           Some (tbl_log t @
                 [\<lparr>commit_schema = schema,
                   commit_partitionBy = [''machine_id'', ''operation'', ''label''],
                   commit_rows =
                     with_metadata m (basename (dirname p))
                       (map (\<lambda>i. (Float64 (data [i, 0]), Float64 (data [i, 1]),
                                   Float64 (data [i, 2]))) [0..<n])\<rparr>]) \<and>
         map_option (\<lambda>t'. filter (same_file m (basename (dirname p))) (table_rows t'))
             (delta_dir (snd (run_files raw [p, p] st))) =
           Some (with_metadata m (basename (dirname p))
                   (map (\<lambda>i. (Float64 (data [i, 0]), Float64 (data [i, 1]),
                               Float64 (data [i, 2]))) [0..<n])) \<and>
         map_option (\<lambda>t'. length (filter (same_file m (basename (dirname p))) (table_rows t')))
             (delta_dir (snd (run_files raw [p, p] st))) = Some n \<and>
         success_log (snd (run_files raw [p, p] st)) =
           success_log st @ [Appended p, Skipped p] \<and>
         failed_log (snd (run_files raw [p, p] st)) = failed_log st"
proof -
  let ?lbl = "basename (dirname p)"
  let ?xyz = "map (\<lambda>i. (Float64 (data [i, 0]), Float64 (data [i, 1]), Float64 (data [i, 2])))
                [0..<n]"
  let ?c = "\<lparr>commit_schema = schema,
             commit_partitionBy = [''machine_id'', ''operation'', ''label''],
             commit_rows = with_metadata m ?lbl ?xyz\<rparr>"
  let ?t1 = "t\<lparr>tbl_log := tbl_log t @ [?c]\<rparr>"
  let ?st1 = "snd (process_file raw p st)"
  have r: "read_vibration_data (raw p) = Inr ?xyz"
    using read_vibration_data_rows[OF assms(6,7)] .
  note first = process_file_append[where raw = raw and p = p, OF assms(1,2,5) r assms(3,4)]
  have "with_metadata m ?lbl ?xyz \<noteq> []"
    using assms(8) by (simp add: with_metadata_def)
  then have ne: "filter (same_file m ?lbl) (table_rows ?t1) \<noteq> []"
    by (simp add: table_rows_append assms(5) with_metadata_all_match)
  note second = process_file_skip[where raw = raw and p = p and st = ?st1,
      OF assms(1) first(2) ne]
  show ?thesis
    using first second
    by (simp add: run_files_Cons length_with_metadata table_rows_append assms(5)
        with_metadata_all_match del: run_files.simps(2))
qed

theorem ingest_twice_witness:
  "parse_filename (basename example_path) = Inr example_meta \<and>
   delta_dir (fresh_state (Some empty_table)) = Some empty_table \<and>
   filter (same_file example_meta (basename (dirname example_path))) (table_rows empty_table) = [] \<and>
   (0::nat) < 2 \<and>
   fst (run_files (\<lambda>p. recording 2) [example_path, example_path]
          (fresh_state (Some empty_table))) =
     [Appended example_path, Skipped example_path] \<and>
   map_option (\<lambda>t'. length (filter (same_file example_meta ''good'') (table_rows t')))
     (delta_dir (snd (run_files (\<lambda>p. recording 2) [example_path, example_path]
                        (fresh_state (Some empty_table))))) = Some 2 \<and>
   success_log (snd (run_files (\<lambda>p. recording 2) [example_path, example_path]
                       (fresh_state (Some empty_table)))) =
     [Appended example_path, Skipped example_path] \<and>
   failed_log (snd (run_files (\<lambda>p. recording 2) [example_path, example_path]
                      (fresh_state (Some empty_table)))) = []"
proof -
  have h2: "delta_dir (fresh_state (Some empty_table)) = Some empty_table"
    by (simp add: fresh_state_def)
  have h3: "tbl_schema empty_table = schema"
    and h4: "tbl_partitionColumns empty_table = [''machine_id'', ''operation'', ''label'']"
    by (simp_all add: empty_table_def)
  have h5: "filter (same_file example_meta (basename (dirname example_path)))
              (table_rows empty_table) = []"
    by (simp add: empty_table_rows)
  have h6: "(\<lambda>p. recording 2) example_path =
              H5File [(''vibration_data'', Dataset [2, 3] (\<lambda>ix. 3 * (ix ! 0) + ix ! 1) [])]"
    by (simp add: recording_def)
  have h7: "map_of [(''vibration_data'', Dataset [2, 3] (\<lambda>ix. 3 * (ix ! 0) + ix ! 1) [])]
              ''vibration_data'' = Some (Dataset [2, 3] (\<lambda>ix. 3 * (ix ! 0) + ix ! 1 :: nat) [])"
    by simp
  have h8: "(0::nat) < 2"
    by simp
  from ingest_twice[where raw = "\<lambda>p. recording 2" and p = example_path,
      OF example_path_parses h2 h3 h4 h5 h6 h7 h8]
  show ?thesis
    using example_path_parses h2 h5 by (simp add: example_path_label fresh_state_def)
qed

section \<open>Failure isolation\<close>

lemma status_path_process_file: "status_path (fst (process_file raw p st)) = p"
  by (auto simp: process_file_def process_body_def Let_def split: sum.splits if_splits)

lemma status_path_run_files: "map status_path (fst (run_files raw fs st)) = fs"
  by (induction fs arbitrary: st)
    (simp_all add: run_files_Cons status_path_process_file del: run_files.simps(2))

text \<open>Rows are only ever added, and a file that parses and reads leaves its rows behind.\<close>

lemma table_tuples_log_append:
  "set (table_tuples t) \<subseteq> set (table_tuples (t\<lparr>tbl_log := tbl_log t @ new\<rparr>))"
  by (auto simp: table_tuples_def table_rows_def)

lemma process_file_ingested:
  assumes "ingestible raw p"
    and "delta_dir st = Some t"
    and "tbl_schema t = schema"
    and "tbl_partitionColumns t = [''machine_id'', ''operation'', ''label'']"
  shows "\<exists>t'. delta_dir (snd (process_file raw p st)) = Some t' \<and>
               tbl_schema t' = schema \<and>
               tbl_partitionColumns t' = [''machine_id'', ''operation'', ''label''] \<and>
               set (table_tuples t) \<subseteq> set (table_tuples t') \<and>
               (\<forall>k'. file_tuple p = Some k' \<and> read_vibration_data (raw p) \<noteq> Inr [] \<longrightarrow>
                     k' \<in> set (table_tuples t'))"
proof (rule process_file_cases[OF assms(2), of raw p])
  fix e
  assume f: "fst (process_file raw p st) = Failed p e"
    and nf: "\<And>m. parse_filename (basename p) = Inr m \<Longrightarrow>
            filter (same_file m (basename (dirname p))) (table_rows t) = []"
  from assms(1) obtain m xyz where m: "parse_filename (basename p) = Inr m"
    and r: "read_vibration_data (raw p) = Inr xyz"
    by (auto simp: ingestible_def split: sum.splits)
  from process_file_append(1)[where raw = raw and p = p, OF m assms(2) nf[OF m] r assms(3,4)] f
  show ?thesis by simp
next
  fix m
  assume m: "parse_filename (basename p) = Inr m"
    and found: "filter (same_file m (basename (dirname p))) (table_rows t) \<noteq> []"
    and d: "delta_dir (snd (process_file raw p st)) = Some t"
  have "k' \<in> set (table_tuples t)" if "file_tuple p = Some k'" for k'
    using found not_in_table_iff[OF that m, of t] by simp
  with d assms(3,4) show ?thesis by auto
next
  fix m xyz
  assume m: "parse_filename (basename p) = Inr m"
    and r: "read_vibration_data (raw p) = Inr xyz"
    and d: "delta_dir (snd (process_file raw p st)) =
         Some (t\<lparr>tbl_log := tbl_log t @
                 [\<lparr>commit_schema = schema,
                   commit_partitionBy = [''machine_id'', ''operation'', ''label''],
                   commit_rows = with_metadata m (basename (dirname p)) xyz\<rparr>]\<rparr>)"
  let ?t1 = "t\<lparr>tbl_log := tbl_log t @
                 [\<lparr>commit_schema = schema,
                   commit_partitionBy = [''machine_id'', ''operation'', ''label''],
                   commit_rows = with_metadata m (basename (dirname p)) xyz\<rparr>]\<rparr>"
  have "k' \<in> set (table_tuples ?t1)"
    if "file_tuple p = Some k'" and "read_vibration_data (raw p) \<noteq> Inr []" for k'
  proof -
    from that(2) r have "xyz \<noteq> []" by auto
    moreover from that(1) m
    have "k' = (machine_id m, month m, year m, operation m, example_no m, basename (dirname p))"
      by (simp add: file_tuple_def)
    ultimately show ?thesis
      by (auto simp: table_tuples_append with_metadata_tuples)
  qed
  moreover have "set (table_tuples t) \<subseteq> set (table_tuples ?t1)"
    by (rule table_tuples_log_append)
  ultimately show ?thesis using d assms(3,4) by auto
qed

lemma run_files_ingested:
  assumes "list_all (ingestible raw) fs"
    and "delta_dir st = Some t"
    and "tbl_schema t = schema"
    and "tbl_partitionColumns t = [''machine_id'', ''operation'', ''label'']"
  shows "\<exists>t'. delta_dir (snd (run_files raw fs st)) = Some t' \<and>
               set (table_tuples t) \<subseteq> set (table_tuples t') \<and>
               (\<forall>f\<in>set fs. \<forall>k'. file_tuple f = Some k' \<and>
                     read_vibration_data (raw f) \<noteq> Inr [] \<longrightarrow>
                     k' \<in> set (table_tuples t'))"
  using assms
proof (induction fs arbitrary: st t)
  case Nil
  then show ?case by simp
next
  case (Cons f fs)
  from Cons.prems(1) have f: "ingestible raw f" and fs: "list_all (ingestible raw) fs"
    by simp_all
  from process_file_ingested[OF f Cons.prems(2-4)]
  obtain t1 where d1: "delta_dir (snd (process_file raw f st)) = Some t1"
    and c1: "tbl_schema t1 = schema"
      "tbl_partitionColumns t1 = [''machine_id'', ''operation'', ''label'']"
    and sub1: "set (table_tuples t) \<subseteq> set (table_tuples t1)"
    and in1: "\<forall>k'. file_tuple f = Some k' \<and> read_vibration_data (raw f) \<noteq> Inr [] \<longrightarrow>
                     k' \<in> set (table_tuples t1)"
    by blast
  from Cons.IH[OF fs d1 c1]
  obtain t2 where d2: "delta_dir (snd (run_files raw fs (snd (process_file raw f st)))) = Some t2"
    and sub2: "set (table_tuples t1) \<subseteq> set (table_tuples t2)"
    and in2: "\<forall>g\<in>set fs. \<forall>k'. file_tuple g = Some k' \<and>
                     read_vibration_data (raw g) \<noteq> Inr [] \<longrightarrow>
                     k' \<in> set (table_tuples t2)"
    by blast
  have "set (table_tuples t) \<subseteq> set (table_tuples t2)"
    using sub1 sub2 by blast
  moreover have "\<forall>g\<in>set (f # fs). \<forall>k'. file_tuple g = Some k' \<and>
                     read_vibration_data (raw g) \<noteq> Inr [] \<longrightarrow>
                     k' \<in> set (table_tuples t2)"
    using in1 in2 sub2 by auto
  ultimately show ?case
    using d2 by (simp add: run_files_Cons del: run_files.simps(2))
qed


text \<open>
  C2, as stated, fails for the batch of ten files in two ways. With no table at the output
  location every one of the ten files fails at the existence check: ten failure lines and
  an empty success log. With the tuple of the fifth file already in the table (here from an
  earlier run, when the file still held its dataset) the fifth file is skipped before it is
  opened: no failure line at all.
\<close>

theorem failure_isolation_counterexample:
  "length (failed_log (snd (run_files batch_raw
       (map numbered_path ''0123'' @ numbered_path CHR ''4'' # map numbered_path ''56789'')
       (fresh_state None)))) = 10 \<and>
   success_log (snd (run_files batch_raw
       (map numbered_path ''0123'' @ numbered_path CHR ''4'' # map numbered_path ''56789'')
       (fresh_state None))) = [] \<and>
   failed_log (snd (run_files batch_raw
       (map numbered_path ''0123'' @ numbered_path CHR ''4'' # map numbered_path ''56789'')
       (fresh_state (delta_dir (snd (run_files (\<lambda>p. recording 2) [numbered_path CHR ''4'']
                                       (fresh_state (Some empty_table)))))))) = [] \<and>
   fst (run_files batch_raw
       (map numbered_path ''0123'' @ numbered_path CHR ''4'' # map numbered_path ''56789'')
       (fresh_state (delta_dir (snd (run_files (\<lambda>p. recording 2) [numbered_path CHR ''4'']
                                       (fresh_state (Some empty_table))))))) ! 4 =
     Skipped (numbered_path CHR ''4'')"
  by code_simp

text \<open>
  C2, amended. Whatever exception the body of the worker raises (from parsing, the existence
  check, reading the source file or the append), the worker returns the failure status for
  that path and appends the pair of the path and the exception to the failure log; and a
  run returns one status per submitted file, in order, each for its own path. In a batch of
  ten files, where the table exists with the schema and the partition columns of the
  pipeline, the fifth file opens but lacks the required dataset, its tuple is neither in
  the table nor that of one of the four files before it, and the other nine parse and read:
  the run returns ten statuses, the fifth is the missing-dataset failure, the other nine
  are appends or skips, the failure log gains exactly that one line and the success log
  nine lines; the fifth file leaves the table as the first four left it; and at the end the
  table still holds every tuple it held, and holds the tuple of each of the other nine
  files whose dataset has at least one row.
\<close>

theorem failure_isolation:
  assumes "length before = 4" and "length after = 5"
    and "list_all (ingestible raw) (before @ after)"
    and "delta_dir st = Some t"
    and "tbl_schema t = schema"
    and "tbl_partitionColumns t = [''machine_id'', ''operation'', ''label'']"
    and "file_tuple f5 = Some k"
    and "k \<notin> set (table_tuples t)"
    and "Some k \<notin> set (map file_tuple before)"
    and "raw f5 = H5File objs"
    and "map_of objs ''vibration_data'' = None"
  shows "(\<forall>p st0 e. process_body raw p (init_file_count st0) = Inl e \<longrightarrow>
            process_file raw p st0 =
              (Failed p e, (init_file_count st0)\<lparr>failed_log := failed_log st0 @ [(p, e)]\<rparr>)) \<and>
         (\<forall>fs0 st0. map status_path (fst (run_files raw fs0 st0)) = fs0) \<and>
         length (fst (run_files raw (before @ f5 # after) st)) = 10 \<and>
         fst (run_files raw (before @ f5 # after) st) ! 4 = Failed f5 MissingDataset \<and>
         list_all succeeded (take 4 (fst (run_files raw (before @ f5 # after) st))) \<and>
         list_all succeeded (drop 5 (fst (run_files raw (before @ f5 # after) st))) \<and>
         failed_log (snd (run_files raw (before @ f5 # after) st)) =
           failed_log st @ [(f5, MissingDataset)] \<and>
         length (success_log (snd (run_files raw (before @ f5 # after) st))) =
           length (success_log st) + 9 \<and>
         delta_dir (snd (run_files raw (before @ [f5]) st)) =
           delta_dir (snd (run_files raw before st)) \<and>
         (\<exists>t'. delta_dir (snd (run_files raw (before @ f5 # after) st)) = Some t' \<and>
               set (table_tuples t) \<subseteq> set (table_tuples t') \<and>
               (\<forall>f\<in>set (before @ after). \<forall>k'.
                   file_tuple f = Some k' \<and> read_vibration_data (raw f) \<noteq> Inr [] \<longrightarrow>
                   k' \<in> set (table_tuples t')))"
proof -
  let ?st1 = "snd (run_files raw before st)"
  let ?st2 = "snd (process_file raw f5 ?st1)"
  have caught: "\<forall>p st0 e. process_body raw p (init_file_count st0) = Inl e \<longrightarrow>
            process_file raw p st0 =
              (Failed p e, (init_file_count st0)\<lparr>failed_log := failed_log st0 @ [(p, e)]\<rparr>)"
    by (simp add: process_file_def init_file_count_def)
  have every: "\<forall>fs0 st0. map status_path (fst (run_files raw fs0 st0)) = fs0"
    by (simp add: status_path_run_files)
  from assms(3) have b: "list_all (ingestible raw) before" and a: "list_all (ingestible raw) after"
    by simp_all
  from run_files_ingestible[OF b assms(4-6)]
  obtain t1 where rs1: "list_all succeeded (fst (run_files raw before st))"
    and fl1: "failed_log ?st1 = failed_log st"
    and sl1: "length (success_log ?st1) = length (success_log st) + length before"
    and d1: "delta_dir ?st1 = Some t1"
    and c1: "tbl_schema t1 = schema"
      "tbl_partitionColumns t1 = [''machine_id'', ''operation'', ''label'']"
    and sub1: "set (table_tuples t1) \<subseteq>
                 set (table_tuples t) \<union> \<Union> (set (map (set_option \<circ> file_tuple) before))"
    by blast
  from assms(7) obtain m where m: "parse_filename (basename f5) = Inr m"
    by (auto simp: file_tuple_def split: sum.splits)
  have "k \<notin> set (table_tuples t1)"
  proof
    assume "k \<in> set (table_tuples t1)"
    with sub1 assms(8) obtain x where "x \<in> set before" and "k \<in> set_option (file_tuple x)"
      by auto
    then have "Some k \<in> set (map file_tuple before)"
      by (metis elem_set image_eqI set_map)
    with assms(9) show False by simp
  qed
  then have nf: "filter (same_file m (basename (dirname f5))) (table_rows t1) = []"
    by (simp add: not_in_table_iff[OF assms(7) m, of t1])
  have r: "read_vibration_data (raw f5) = Inl MissingDataset"
    using assms(10,11) by (simp add: read_vibration_data_def)
  note five = process_file_read_error[where raw = raw and p = f5, OF m d1 nf r]
  from run_files_ingestible[OF a five(2) c1]
  have rs3: "list_all succeeded (fst (run_files raw after ?st2))"
    and fl3: "failed_log (snd (run_files raw after ?st2)) = failed_log ?st2"
    and sl3: "length (success_log (snd (run_files raw after ?st2))) =
                length (success_log ?st2) + length after"
    by blast+
  have rs: "fst (run_files raw (before @ f5 # after) st) =
              fst (run_files raw before st) @ Failed f5 MissingDataset #
              fst (run_files raw after ?st2)"
    by (simp add: run_files_append run_files_Cons five(1) del: run_files.simps(2))
  have st: "snd (run_files raw (before @ f5 # after) st) = snd (run_files raw after ?st2)"
    by (simp add: run_files_append run_files_Cons del: run_files.simps(2))
  have lb: "length (fst (run_files raw before st)) = 4"
    and la: "length (fst (run_files raw after ?st2)) = 5"
    by (simp_all add: length_run_files assms(1,2))
  have "length (fst (run_files raw (before @ f5 # after) st)) = 10"
    by (simp add: length_run_files assms(1,2))
  moreover have "fst (run_files raw (before @ f5 # after) st) ! 4 = Failed f5 MissingDataset"
    unfolding rs using lb by (simp add: nth_append)
  moreover have "list_all succeeded (take 4 (fst (run_files raw (before @ f5 # after) st)))"
    unfolding rs using lb rs1 by simp
  moreover have "list_all succeeded (drop 5 (fst (run_files raw (before @ f5 # after) st)))"
    unfolding rs using lb rs3 by simp
  moreover have "failed_log (snd (run_files raw (before @ f5 # after) st)) =
           failed_log st @ [(f5, MissingDataset)]"
    unfolding st using fl3 five(4) fl1 by simp
  moreover have "length (success_log (snd (run_files raw (before @ f5 # after) st))) =
           length (success_log st) + 9"
    unfolding st using sl3 five(3) sl1 assms(1,2) by simp
  moreover have "delta_dir (snd (run_files raw (before @ [f5]) st)) =
           delta_dir (snd (run_files raw before st))"
    using five(2) d1 by (simp add: run_files_append run_files_Cons del: run_files.simps(2))
  moreover have "\<exists>t'. delta_dir (snd (run_files raw (before @ f5 # after) st)) = Some t' \<and>
               set (table_tuples t) \<subseteq> set (table_tuples t') \<and>
               (\<forall>f\<in>set (before @ after). \<forall>k'.
                   file_tuple f = Some k' \<and> read_vibration_data (raw f) \<noteq> Inr [] \<longrightarrow>
                   k' \<in> set (table_tuples t'))"
  proof -
    from run_files_ingested[OF b assms(4-6)] d1
    have subb: "set (table_tuples t) \<subseteq> set (table_tuples t1)"
      and inb: "\<forall>f\<in>set before. \<forall>k'.
                   file_tuple f = Some k' \<and> read_vibration_data (raw f) \<noteq> Inr [] \<longrightarrow>
                   k' \<in> set (table_tuples t1)"
      by auto
    from run_files_ingested[OF a five(2) c1]
    obtain t2 where d2: "delta_dir (snd (run_files raw after ?st2)) = Some t2"
      and suba: "set (table_tuples t1) \<subseteq> set (table_tuples t2)"
      and ina: "\<forall>f\<in>set after. \<forall>k'.
                   file_tuple f = Some k' \<and> read_vibration_data (raw f) \<noteq> Inr [] \<longrightarrow>
                   k' \<in> set (table_tuples t2)"
      by blast
    have "set (table_tuples t) \<subseteq> set (table_tuples t2)"
      using subb suba by blast
    moreover have "\<forall>f\<in>set (before @ after). \<forall>k'.
                   file_tuple f = Some k' \<and> read_vibration_data (raw f) \<noteq> Inr [] \<longrightarrow>
                   k' \<in> set (table_tuples t2)"
      using inb ina suba by auto
    ultimately show ?thesis
      unfolding st using d2 by blast
  qed
  ultimately show ?thesis
    using caught every by blast
qed

theorem failure_isolation_witness:
  "list_all (ingestible batch_raw) (map numbered_path ''0123'' @ map numbered_path ''56789'') \<and>
   file_tuple (numbered_path CHR ''4'') =
     Some (''M01'', ''Feb'', ''2019'', ''OP00'', ''004'', ''good'') \<and>
   Some (''M01'', ''Feb'', ''2019'', ''OP00'', ''004'', ''good'') \<notin>
     set (map file_tuple (map numbered_path ''0123'')) \<and>
   batch_raw (numbered_path CHR ''4'') = no_vibration \<and>
   fst (run_files batch_raw (map numbered_path ''0123'' @ numbered_path CHR ''4'' #
          map numbered_path ''56789'') (fresh_state (Some empty_table))) ! 4 =
     Failed (numbered_path CHR ''4'') MissingDataset \<and>
   list_all succeeded
     (take 4 (fst (run_files batch_raw (map numbered_path ''0123'' @ numbered_path CHR ''4'' #
                     map numbered_path ''56789'') (fresh_state (Some empty_table))))) \<and>
   list_all succeeded
     (drop 5 (fst (run_files batch_raw (map numbered_path ''0123'' @ numbered_path CHR ''4'' #
                     map numbered_path ''56789'') (fresh_state (Some empty_table))))) \<and>
   failed_log (snd (run_files batch_raw (map numbered_path ''0123'' @ numbered_path CHR ''4'' #
                      map numbered_path ''56789'') (fresh_state (Some empty_table)))) =
     [(numbered_path CHR ''4'', MissingDataset)] \<and>
   length (success_log (snd (run_files batch_raw (map numbered_path ''0123'' @
                               numbered_path CHR ''4'' # map numbered_path ''56789'')
                               (fresh_state (Some empty_table))))) = 9 \<and>
   delta_dir (snd (run_files batch_raw (map numbered_path ''0123'' @ [numbered_path CHR ''4''])
                     (fresh_state (Some empty_table)))) =
     delta_dir (snd (run_files batch_raw (map numbered_path ''0123'')
                       (fresh_state (Some empty_table)))) \<and>
   file_tuple (numbered_path CHR ''7'') =
     Some (''M01'', ''Feb'', ''2019'', ''OP00'', ''007'', ''good'') \<and>
   read_vibration_data (batch_raw (numbered_path CHR ''7'')) \<noteq> Inr [] \<and>
   (\<exists>t'. delta_dir (snd (run_files batch_raw (map numbered_path ''0123'' @
                            numbered_path CHR ''4'' # map numbered_path ''56789'')
                            (fresh_state (Some empty_table)))) = Some t' \<and>
         (''M01'', ''Feb'', ''2019'', ''OP00'', ''007'', ''good'') \<in> set (table_tuples t'))"
proof -
  have h1: "length (map numbered_path ''0123'') = 4"
    and h2: "length (map numbered_path ''56789'') = 5"
    by simp_all
  have h3: "list_all (ingestible batch_raw)
              (map numbered_path ''0123'' @ map numbered_path ''56789'')"
    by code_simp
  have h4: "delta_dir (fresh_state (Some empty_table)) = Some empty_table"
    by (simp add: fresh_state_def)
  have h5: "tbl_schema empty_table = schema"
    and h6: "tbl_partitionColumns empty_table = [''machine_id'', ''operation'', ''label'']"
    by (simp_all add: empty_table_def)
  have h7: "file_tuple (numbered_path CHR ''4'') =
              Some (''M01'', ''Feb'', ''2019'', ''OP00'', ''004'', ''good'')"
    by code_simp
  have h8: "(''M01'', ''Feb'', ''2019'', ''OP00'', ''004'', ''good'') \<notin>
              set (table_tuples empty_table)"
    by (simp add: table_tuples_def empty_table_rows)
  have h9: "Some (''M01'', ''Feb'', ''2019'', ''OP00'', ''004'', ''good'') \<notin>
              set (map file_tuple (map numbered_path ''0123''))"
    by code_simp
  have h10: "batch_raw (numbered_path CHR ''4'') =
               H5File [(''other_data'', Dataset [4, 3] (\<lambda>ix. 0) [])]"
    by (simp add: batch_raw_def no_vibration_def)
  have h11: "map_of [(''other_data'', Dataset [4, 3] (\<lambda>ix. 0::nat) [])] ''vibration_data'' = None"
    by simp
  have h12: "batch_raw (numbered_path CHR ''4'') = no_vibration"
    by (simp add: batch_raw_def)
  have logs: "failed_log (fresh_state (Some empty_table) :: nat state) = []"
    "success_log (fresh_state (Some empty_table) :: nat state) = []"
    by (simp_all add: fresh_state_def)
  note inst = failure_isolation[OF h1 h2 h3 h4 h5 h6 h7 h8 h9 h10 h11,
      unfolded logs append_Nil list.size add_0_left]
  have h13: "numbered_path CHR ''7'' \<in>
               set (map numbered_path ''0123'' @ map numbered_path ''56789'')"
    by simp
  have h14: "file_tuple (numbered_path CHR ''7'') =
               Some (''M01'', ''Feb'', ''2019'', ''OP00'', ''007'', ''good'')"
    by code_simp
  have h15: "read_vibration_data (batch_raw (numbered_path CHR ''7'')) \<noteq> Inr []"
    by code_simp
  from inst h13 h14 h15
  have seven: "\<exists>t'. delta_dir (snd (run_files batch_raw (map numbered_path ''0123'' @
                            numbered_path CHR ''4'' # map numbered_path ''56789'')
                            (fresh_state (Some empty_table)))) = Some t' \<and>
         (''M01'', ''Feb'', ''2019'', ''OP00'', ''007'', ''good'') \<in> set (table_tuples t')"
    by blast
  from inst h3 h7 h9 h12 h14 h15 seven show ?thesis
    by blast
qed

section \<open>The count of distinct tuples and the success log\<close>

lemma file_tuples_Cons:
  "file_tuples (f # fs) =
     (case file_tuple f of None \<Rightarrow> file_tuples fs | Some k \<Rightarrow> k # file_tuples fs)"
  by (simp add: file_tuples_def split: option.splits)

lemma file_tuple_Some:
  "file_tuple p = Some k \<longleftrightarrow>
     (\<exists>m. parse_filename (basename p) = Inr m \<and>
          k = (machine_id m, month m, year m, operation m, example_no m, basename (dirname p)))"
  by (auto simp: file_tuple_def split: sum.splits)

lemma count_invariant:
  assumes "delta_dir st = Some t"
    and "distinct (file_tuples fs)"
    and "\<forall>f\<in>set fs. read_vibration_data (raw f) \<noteq> Inr []"
    and "card (set (table_tuples t) - set (file_tuples fs)) = length (success_log st)"
  shows "\<exists>t'. delta_dir (snd (run_files raw fs st)) = Some t' \<and>
              card (set (table_tuples t')) = length (success_log (snd (run_files raw fs st)))"
  using assms
proof (induction fs arbitrary: st t)
  case Nil
  then show ?case by (simp add: file_tuples_def)
next
  case (Cons f fs)
  let ?T = "set (table_tuples t)"
  let ?K = "set (file_tuples fs)"
  let ?st1 = "snd (process_file raw f st)"
  from Cons.prems(3) have ne: "\<forall>f\<in>set fs. read_vibration_data (raw f) \<noteq> Inr []"
    and nef: "read_vibration_data (raw f) \<noteq> Inr []"
    by simp_all
  from Cons.prems(2) have dist: "distinct (file_tuples fs)"
    by (auto simp: file_tuples_Cons split: option.splits)
  have fresh: "k \<notin> ?K" if "file_tuple f = Some k" for k
    using Cons.prems(2) that by (simp add: file_tuples_Cons)
  have step: "\<exists>t1. delta_dir ?st1 = Some t1 \<and>
                card (set (table_tuples t1) - ?K) = length (success_log ?st1)"
  proof (rule process_file_cases[OF Cons.prems(1), of raw f])
    fix e
    assume d: "delta_dir ?st1 = Some t"
      and s: "success_log ?st1 = success_log st"
      and nf: "\<And>m. parse_filename (basename f) = Inr m \<Longrightarrow>
                 filter (same_file m (basename (dirname f))) (table_rows t) = []"
    have "?T - set (file_tuples (f # fs)) = ?T - ?K"
    proof (cases "file_tuple f")
      case None
      then show ?thesis by (simp add: file_tuples_Cons)
    next
      case (Some k)
      then obtain m where m: "parse_filename (basename f) = Inr m"
        by (auto simp: file_tuple_Some)
      from nf[OF m] have "k \<notin> ?T"
        by (simp add: not_in_table_iff[OF Some m, of t])
      with Some show ?thesis by (auto simp: file_tuples_Cons)
    qed
    with Cons.prems(4) d s show ?thesis by simp
  next
    fix m
    assume m: "parse_filename (basename f) = Inr m"
      and found: "filter (same_file m (basename (dirname f))) (table_rows t) \<noteq> []"
      and d: "delta_dir ?st1 = Some t"
      and s: "success_log ?st1 = success_log st @ [Skipped f]"
    from m obtain k where k: "file_tuple f = Some k"
      by (auto simp: file_tuple_def)
    from found have kT: "k \<in> ?T"
      using not_in_table_iff[OF k m, of t] by simp
    have "?T - ?K = insert k (?T - set (file_tuples (f # fs)))"
      using k kT fresh[OF k] by (auto simp: file_tuples_Cons)
    moreover have "k \<notin> ?T - set (file_tuples (f # fs))"
      using k by (simp add: file_tuples_Cons)
    ultimately have "card (?T - ?K) = Suc (card (?T - set (file_tuples (f # fs))))"
      by simp
    with Cons.prems(4) d s show ?thesis by simp
  next
    fix m xyz
    assume m: "parse_filename (basename f) = Inr m"
      and nf: "filter (same_file m (basename (dirname f))) (table_rows t) = []"
      and r: "read_vibration_data (raw f) = Inr xyz"
      and d: "delta_dir ?st1 =
         Some (t\<lparr>tbl_log := tbl_log t @
                 [\<lparr>commit_schema = schema,
                   commit_partitionBy = [''machine_id'', ''operation'', ''label''],
                   commit_rows = with_metadata m (basename (dirname f)) xyz\<rparr>]\<rparr>)"
      and s: "success_log ?st1 = success_log st @ [Appended f]"
    let ?t1 = "t\<lparr>tbl_log := tbl_log t @
                 [\<lparr>commit_schema = schema,
                   commit_partitionBy = [''machine_id'', ''operation'', ''label''],
                   commit_rows = with_metadata m (basename (dirname f)) xyz\<rparr>]\<rparr>"
    from m obtain k where k: "file_tuple f = Some k"
      by (auto simp: file_tuple_def)
    then have kv: "k = (machine_id m, month m, year m, operation m, example_no m,
                        basename (dirname f))"
      using m by (simp add: file_tuple_def)
    from nf have kT: "k \<notin> ?T"
      using not_in_table_iff[OF k m, of t] by simp
    from r nef have "xyz \<noteq> []" by auto
    then have T1: "set (table_tuples ?t1) = insert k ?T"
      by (auto simp: table_tuples_append with_metadata_tuples kv)
    have "set (table_tuples ?t1) - ?K = insert k (?T - set (file_tuples (f # fs)))"
      unfolding T1 using k kT fresh[OF k] by (auto simp: file_tuples_Cons)
    moreover have "k \<notin> ?T - set (file_tuples (f # fs))"
      using kT by simp
    ultimately have "card (set (table_tuples ?t1) - ?K) =
                       Suc (card (?T - set (file_tuples (f # fs))))"
      by simp
    with Cons.prems(4) d s show ?thesis by simp
  qed
  then obtain t1 where d1: "delta_dir ?st1 = Some t1"
    and c1: "card (set (table_tuples t1) - ?K) = length (success_log ?st1)"
    by blast
  from Cons.IH[OF d1 dist ne c1] show ?case
    by (simp add: run_files_Cons del: run_files.simps(2))
qed

text \<open>
  C4, as stated, fails in three ways, each in a sequential run on the pipeline's table.
  Two files of one run with the same base name and label: one tuple, two lines (an append
  and a skip). A file whose dataset has no rows: no tuple, one line. A table that already
  holds the rows of a file which is not among the files of the run: two tuples, one line.
\<close>

theorem count_invariant_counterexample:
  "map_option count_distinct_files
     (delta_dir (snd (run_files (\<lambda>p. recording 2) [example_path, twin_path]
                        (fresh_state (Some empty_table))))) = Some 1 \<and>
   length (success_log (snd (run_files (\<lambda>p. recording 2) [example_path, twin_path]
                               (fresh_state (Some empty_table))))) = 2 \<and>
   map_option count_distinct_files
     (delta_dir (snd (run_files (\<lambda>p. recording 0) [example_path]
                        (fresh_state (Some empty_table))))) = Some 0 \<and>
   length (success_log (snd (run_files (\<lambda>p. recording 0) [example_path]
                               (fresh_state (Some empty_table))))) = 1 \<and>
   map_option count_distinct_files
     (delta_dir (snd (run_files (\<lambda>p. recording 2) [example_path]
        (fresh_state (delta_dir (snd (run_files (\<lambda>p. recording 2) [other_path]
                                       (fresh_state (Some empty_table))))))))) = Some 2 \<and>
   length (success_log (snd (run_files (\<lambda>p. recording 2) [example_path]
        (fresh_state (delta_dir (snd (run_files (\<lambda>p. recording 2) [other_path]
                                       (fresh_state (Some empty_table))))))))) = 1"
  by code_simp

text \<open>
  C4, amended. A sequential run that starts with an empty success log on an existing table,
  where the files whose names parse have pairwise distinct metadata tuples, every tuple
  already in the table is the tuple of a file of the run, and no file of the run reads as a
  dataset without rows: afterwards the number of distinct metadata tuples of the table
  equals the number of lines of the success log (append lines and skip lines).
\<close>

theorem count_invariant_of_a_run:
  assumes "delta_dir st = Some t"
    and "success_log st = []"
    and "distinct (file_tuples fs)"
    and "set (table_tuples t) \<subseteq> set (file_tuples fs)"
    and "\<forall>f\<in>set fs. read_vibration_data (raw f) \<noteq> Inr []"
  shows "map_option count_distinct_files (delta_dir (snd (run_files raw fs st))) =
           Some (length (success_log (snd (run_files raw fs st))))"
proof -
  from assms(4) have "set (table_tuples t) - set (file_tuples fs) = {}"
    by blast
  then have "card (set (table_tuples t) - set (file_tuples fs)) = length (success_log st)"
    by (simp add: assms(2))
  from count_invariant[OF assms(1,3,5) this]
  show ?thesis
    by (auto simp: count_distinct_files_def length_remdups_card_conv table_tuples_def)
qed

theorem count_invariant_of_a_run_witness:
  "delta_dir (fresh_state (Some empty_table)) = Some empty_table \<and>
   success_log (fresh_state (Some empty_table)) = [] \<and>
   distinct (file_tuples [example_path, other_path, short_path]) \<and>
   set (table_tuples empty_table) \<subseteq> set (file_tuples [example_path, other_path, short_path]) \<and>
   list_all (\<lambda>f. read_vibration_data (batch_raw f) \<noteq> Inr [])
     [example_path, other_path, short_path] \<and>
   map_option count_distinct_files
     (delta_dir (snd (run_files batch_raw [example_path, other_path, short_path]
                        (fresh_state (Some empty_table))))) =
     Some (length (success_log (snd (run_files batch_raw [example_path, other_path, short_path]
                                       (fresh_state (Some empty_table))))))"
proof -
  have h1: "delta_dir (fresh_state (Some empty_table)) = Some empty_table"
    and h2: "success_log (fresh_state (Some empty_table)) = []"
    by (simp_all add: fresh_state_def)
  have h3: "distinct (file_tuples [example_path, other_path, short_path])"
    by code_simp
  have h4: "set (table_tuples empty_table) \<subseteq>
              set (file_tuples [example_path, other_path, short_path])"
    by (simp add: table_tuples_def empty_table_rows)
  have h5: "list_all (\<lambda>f. read_vibration_data (batch_raw f) \<noteq> Inr [])
              [example_path, other_path, short_path]"
    by code_simp
  then have h5': "\<forall>f\<in>set [example_path, other_path, short_path].
              read_vibration_data (batch_raw f) \<noteq> Inr []"
    by (simp only: list_all_iff)
  from count_invariant_of_a_run[OF h1 h2 h3 h4 h5'] h1 h2 h3 h4 h5
  show ?thesis by blast
qed

section \<open>The schema of the table\<close>

lemma process_file_log:
  assumes "delta_dir st = Some t"
  shows "\<exists>new. delta_dir (snd (process_file raw p st)) = Some (t\<lparr>tbl_log := tbl_log t @ new\<rparr>) \<and>
           list_all (\<lambda>c. commit_schema c = schema \<and>
                          commit_partitionBy c = [''machine_id'', ''operation'', ''label'']) new"
proof (rule process_file_cases[OF assms, of raw p])
  fix e
  assume "delta_dir (snd (process_file raw p st)) = Some t"
  then show ?thesis by (intro exI[of _ "[]"]) simp
next
  fix m
  assume "delta_dir (snd (process_file raw p st)) = Some t"
  then show ?thesis by (intro exI[of _ "[]"]) simp
next
  fix m xyz
  assume "delta_dir (snd (process_file raw p st)) =
         Some (t\<lparr>tbl_log := tbl_log t @
                 [\<lparr>commit_schema = schema,
                   commit_partitionBy = [''machine_id'', ''operation'', ''label''],
                   commit_rows = with_metadata m (basename (dirname p)) xyz\<rparr>]\<rparr>)"
  then show ?thesis
    by (intro exI[of _ "[\<lparr>commit_schema = schema,
                   commit_partitionBy = [''machine_id'', ''operation'', ''label''],
                   commit_rows = with_metadata m (basename (dirname p)) xyz\<rparr>]"]) simp
qed

lemma run_files_log:
  assumes "delta_dir st = Some t"
  shows "\<exists>new. delta_dir (snd (run_files raw fs st)) = Some (t\<lparr>tbl_log := tbl_log t @ new\<rparr>) \<and>
           list_all (\<lambda>c. commit_schema c = schema \<and>
                          commit_partitionBy c = [''machine_id'', ''operation'', ''label'']) new"
  using assms
proof (induction fs arbitrary: st t)
  case Nil
  then show ?case by (intro exI[of _ "[]"]) simp
next
  case (Cons f fs)
  from process_file_log[OF Cons.prems, of raw f]
  obtain new1 where d1: "delta_dir (snd (process_file raw f st)) =
                           Some (t\<lparr>tbl_log := tbl_log t @ new1\<rparr>)"
    and a1: "list_all (\<lambda>c. commit_schema c = schema \<and>
                          commit_partitionBy c = [''machine_id'', ''operation'', ''label'']) new1"
    by blast
  from Cons.IH[OF d1]
  obtain new2 where d2: "delta_dir (snd (run_files raw fs (snd (process_file raw f st)))) =
                           Some (t\<lparr>tbl_log := tbl_log t @ new1 @ new2\<rparr>)"
    and a2: "list_all (\<lambda>c. commit_schema c = schema \<and>
                          commit_partitionBy c = [''machine_id'', ''operation'', ''label'']) new2"
    by auto
  from d2 a1 a2 show ?case
    by (intro exI[of _ "new1 @ new2"]) (simp add: run_files_Cons del: run_files.simps(2))
qed

text \<open>
  C5. Whatever files a run processes on a table that has the schema of the pipeline, the
  table afterwards has that schema, and its log is the former log followed by transactions
  that were all written with that schema. The schema names exactly nine columns: x, y and z
  of type double, and machine_id, month, year, operation, example_no and label of type
  string.
\<close>

theorem schema_invariant:
  assumes "delta_dir st = Some t"
    and "tbl_schema t = schema"
  shows "map_option tbl_schema (delta_dir (snd (run_files raw fs st))) = Some schema \<and>
         (\<exists>new. map_option tbl_log (delta_dir (snd (run_files raw fs st))) =
                   Some (tbl_log t @ new) \<and>
                 list_all (\<lambda>c. commit_schema c = schema) new) \<and>
         map (\<lambda>(name, ty, nullable). (name, ty)) schema =
           [(''x'', DoubleType), (''y'', DoubleType), (''z'', DoubleType),
            (''machine_id'', StringType), (''month'', StringType), (''year'', StringType),
            (''operation'', StringType), (''example_no'', StringType),
            (''label'', StringType)]"
proof -
  from run_files_log[OF assms(1), of raw fs]
  obtain new where d: "delta_dir (snd (run_files raw fs st)) =
                         Some (t\<lparr>tbl_log := tbl_log t @ new\<rparr>)"
    and a: "list_all (\<lambda>c. commit_schema c = schema \<and>
                          commit_partitionBy c = [''machine_id'', ''operation'', ''label'']) new"
    by blast
  from a have a': "list_all (\<lambda>c. commit_schema c = schema) new"
    by (simp add: list_all_iff)
  have "map_option tbl_log (delta_dir (snd (run_files raw fs st))) = Some (tbl_log t @ new)"
    by (simp add: d)
  with a' have "\<exists>new. map_option tbl_log (delta_dir (snd (run_files raw fs st))) =
                   Some (tbl_log t @ new) \<and> list_all (\<lambda>c. commit_schema c = schema) new"
    by blast
  moreover have "map_option tbl_schema (delta_dir (snd (run_files raw fs st))) = Some schema"
    by (simp add: d assms(2))
  moreover have "map (\<lambda>(name, ty, nullable). (name, ty)) schema =
           [(''x'', DoubleType), (''y'', DoubleType), (''z'', DoubleType),
            (''machine_id'', StringType), (''month'', StringType), (''year'', StringType),
            (''operation'', StringType), (''example_no'', StringType),
            (''label'', StringType)]"
    by (simp add: schema_def)
  ultimately show ?thesis by blast
qed

theorem schema_invariant_witness:
  "delta_dir (fresh_state (Some empty_table)) = Some empty_table \<and>
   tbl_schema empty_table = schema \<and>
   map_option tbl_schema
     (delta_dir (snd (run_files batch_raw [other_path, example_path, other_path, short_path]
                        (fresh_state (Some empty_table))))) = Some schema \<and>
   map_option (\<lambda>t. length (tbl_log t))
     (delta_dir (snd (run_files batch_raw [other_path, example_path, other_path, short_path]
                        (fresh_state (Some empty_table))))) = Some 1"
proof -
  have h1: "delta_dir (fresh_state (Some empty_table)) = Some empty_table"
    by (simp add: fresh_state_def)
  have h2: "tbl_schema empty_table = schema"
    by (simp add: empty_table_def)
  have n: "map_option (\<lambda>t. length (tbl_log t))
     (delta_dir (snd (run_files batch_raw [other_path, example_path, other_path, short_path]
                        (fresh_state (Some empty_table))))) = Some 1"
    by code_simp
  from schema_invariant[OF h1 h2, of batch_raw "[other_path, example_path, other_path, short_path]"]
    h1 h2 n
  show ?thesis by blast
qed

section \<open>Partition columns and partition subdirectories\<close>

lemma with_metadata_Nil_iff: "with_metadata m lbl xyz = [] \<longleftrightarrow> xyz = []"
  by (simp add: with_metadata_def)

lemma table_dirs_append:
  "table_dirs (t\<lparr>tbl_log := tbl_log t @ new\<rparr>) = table_dirs t @ concat (map commit_dirs new)"
  by (simp add: table_dirs_def)

lemma partition_dir_same_file:
  assumes "same_file m lbl r"
  shows "partition_dir [''machine_id'', ''operation'', ''label''] r = file_dir m lbl"
  using assms by (simp add: partition_dir_def string_column_def file_dir_def same_file_def)

lemma rows_have_dirs:
  assumes "list_all (\<lambda>c. commit_partitionBy c = cols) (tbl_log t)"
    and "r \<in> set (table_rows t)"
  shows "partition_dir cols r \<in> set (table_dirs t)"
  using assms by (auto simp: table_rows_def table_dirs_def commit_dirs_def list_all_iff)

lemma matching_row_has_dir:
  assumes "list_all (\<lambda>c. commit_partitionBy c = [''machine_id'', ''operation'', ''label''])
             (tbl_log t)"
    and "parse_filename (basename p) = Inr m"
    and "filter (same_file m (basename (dirname p))) (table_rows t) \<noteq> []"
  shows "has_partition_dir t p"
proof -
  from assms(3) obtain r where r: "r \<in> set (table_rows t)"
    and s: "same_file m (basename (dirname p)) r"
    by (auto simp: filter_empty_conv)
  from rows_have_dirs[OF assms(1) r] partition_dir_same_file[OF s] assms(2)
  show ?thesis by (simp add: has_partition_dir_def)
qed

lemma has_partition_dir_mono:
  "has_partition_dir t p \<Longrightarrow> has_partition_dir (t\<lparr>tbl_log := tbl_log t @ new\<rparr>) p"
  by (auto simp: has_partition_dir_def table_dirs_append split: sum.splits)

lemma process_file_dirs:
  assumes "delta_dir st = Some t"
    and "list_all (\<lambda>c. commit_partitionBy c = [''machine_id'', ''operation'', ''label''])
           (tbl_log t)"
  shows "\<exists>t' ln. delta_dir (snd (process_file raw p st)) = Some t' \<and>
           (success_log (snd (process_file raw p st)) = success_log st \<or>
            success_log (snd (process_file raw p st)) = success_log st @ [ln] \<and>
            (ln = Skipped p \<or> ln = Appended p) \<and>
            (ln = Skipped p \<or> read_vibration_data (raw p) \<noteq> Inr [] \<longrightarrow>
               has_partition_dir t' p))"
proof (rule process_file_cases[OF assms(1), of raw p])
  fix e
  assume "delta_dir (snd (process_file raw p st)) = Some t"
    "success_log (snd (process_file raw p st)) = success_log st"
  then show ?thesis by simp
next
  fix m
  assume m: "parse_filename (basename p) = Inr m"
    and f: "filter (same_file m (basename (dirname p))) (table_rows t) \<noteq> []"
    and d: "delta_dir (snd (process_file raw p st)) = Some t"
    and s: "success_log (snd (process_file raw p st)) = success_log st @ [Skipped p]"
  from matching_row_has_dir[OF assms(2) m f] d s show ?thesis by simp
next
  fix m xyz
  assume m: "parse_filename (basename p) = Inr m"
    and r: "read_vibration_data (raw p) = Inr xyz"
    and d: "delta_dir (snd (process_file raw p st)) =
         Some (t\<lparr>tbl_log := tbl_log t @
                 [\<lparr>commit_schema = schema,
                   commit_partitionBy = [''machine_id'', ''operation'', ''label''],
                   commit_rows = with_metadata m (basename (dirname p)) xyz\<rparr>]\<rparr>)"
    and s: "success_log (snd (process_file raw p st)) = success_log st @ [Appended p]"
  let ?t1 = "t\<lparr>tbl_log := tbl_log t @
                 [\<lparr>commit_schema = schema,
                   commit_partitionBy = [''machine_id'', ''operation'', ''label''],
                   commit_rows = with_metadata m (basename (dirname p)) xyz\<rparr>]\<rparr>"
  have all1: "list_all (\<lambda>c. commit_partitionBy c = [''machine_id'', ''operation'', ''label''])
                (tbl_log ?t1)"
    using assms(2) by simp
  have "has_partition_dir ?t1 p" if "xyz \<noteq> []"
  proof -
    from that have "filter (same_file m (basename (dirname p))) (table_rows ?t1) \<noteq> []"
      by (simp add: table_rows_append with_metadata_all_match with_metadata_Nil_iff)
    from matching_row_has_dir[OF all1 m this] show ?thesis .
  qed
  with d s r show ?thesis by auto
qed

lemma run_files_dirs:
  assumes "delta_dir st = Some t"
    and "list_all (\<lambda>c. commit_partitionBy c = [''machine_id'', ''operation'', ''label''])
           (tbl_log t)"
    and "\<forall>f. Skipped f \<in> set (success_log st) \<or>
               Appended f \<in> set (success_log st) \<and> read_vibration_data (raw f) \<noteq> Inr [] \<longrightarrow>
               has_partition_dir t f"
  shows "\<exists>t'. delta_dir (snd (run_files raw fs st)) = Some t' \<and>
           (\<forall>f. Skipped f \<in> set (success_log (snd (run_files raw fs st))) \<or>
                 Appended f \<in> set (success_log (snd (run_files raw fs st))) \<and>
                 read_vibration_data (raw f) \<noteq> Inr [] \<longrightarrow>
                 has_partition_dir t' f)"
  using assms
proof (induction fs arbitrary: st t)
  case Nil
  then show ?case by simp
next
  case (Cons f fs)
  let ?st1 = "snd (process_file raw f st)"
  from process_file_log[OF Cons.prems(1), of raw f]
  obtain new where d1: "delta_dir ?st1 = Some (t\<lparr>tbl_log := tbl_log t @ new\<rparr>)"
    and a1: "list_all (\<lambda>c. commit_schema c = schema \<and>
                          commit_partitionBy c = [''machine_id'', ''operation'', ''label'']) new"
    by blast
  let ?t1 = "t\<lparr>tbl_log := tbl_log t @ new\<rparr>"
  have all1: "list_all (\<lambda>c. commit_partitionBy c = [''machine_id'', ''operation'', ''label''])
                (tbl_log ?t1)"
    using Cons.prems(2) a1 by (auto simp: list_all_iff)
  from process_file_dirs[OF Cons.prems(1,2), of raw f] d1
  obtain ln where step: "success_log ?st1 = success_log st \<or>
            success_log ?st1 = success_log st @ [ln] \<and>
            (ln = Skipped f \<or> ln = Appended f) \<and>
            (ln = Skipped f \<or> read_vibration_data (raw f) \<noteq> Inr [] \<longrightarrow>
               has_partition_dir ?t1 f)"
    by auto
  have old: "has_partition_dir ?t1 g"
    if "Skipped g \<in> set (success_log st) \<or>
        Appended g \<in> set (success_log st) \<and> read_vibration_data (raw g) \<noteq> Inr []" for g
    using Cons.prems(3) that has_partition_dir_mono[of t g new] by blast
  have inv1: "\<forall>g. Skipped g \<in> set (success_log ?st1) \<or>
               Appended g \<in> set (success_log ?st1) \<and> read_vibration_data (raw g) \<noteq> Inr [] \<longrightarrow>
               has_partition_dir ?t1 g"
    using step old by auto
  from Cons.IH[OF d1 all1 inv1] show ?case
    by (simp add: run_files_Cons del: run_files.simps(2))
qed

text \<open>
  C8, as stated, fails for a source file whose dataset has no rows: it is logged as
  appended, but its transaction holds no row, so no partition subdirectory is written for
  its combination of machine_id, operation and label.
\<close>

theorem partition_completeness_counterexample:
  "success_log (snd (run_files (\<lambda>p. recording 0) [example_path]
                       (fresh_state (Some empty_table)))) = [Appended example_path] \<and>
   map_option table_dirs
     (delta_dir (snd (run_files (\<lambda>p. recording 0) [example_path]
                        (fresh_state (Some empty_table))))) = Some []"
  by code_simp

text \<open>
  C8, amended. On an existing table whose transactions were all partitioned by machine_id,
  operation and label, every transaction that a run adds is partitioned by these same
  columns; and for every file that the run logs as skipped, or logs as appended with a
  dataset of at least one row, the table then holds the partition subdirectory of that
  file's machine_id, operation and label, with a data file.
\<close>

theorem partition_completeness:
  assumes "delta_dir st = Some t"
    and "list_all (\<lambda>c. commit_partitionBy c = [''machine_id'', ''operation'', ''label''])
           (tbl_log t)"
    and "success_log st = []"
  shows "\<exists>t' new. delta_dir (snd (run_files raw fs st)) = Some t' \<and>
           tbl_log t' = tbl_log t @ new \<and>
           list_all (\<lambda>c. commit_partitionBy c = [''machine_id'', ''operation'', ''label'']) new \<and>
           (\<forall>f. Skipped f \<in> set (success_log (snd (run_files raw fs st))) \<or>
                 Appended f \<in> set (success_log (snd (run_files raw fs st))) \<and>
                 read_vibration_data (raw f) \<noteq> Inr [] \<longrightarrow>
                 has_partition_dir t' f)"
proof -
  from run_files_log[OF assms(1), of raw fs]
  obtain new where d: "delta_dir (snd (run_files raw fs st)) =
                         Some (t\<lparr>tbl_log := tbl_log t @ new\<rparr>)"
    and a: "list_all (\<lambda>c. commit_schema c = schema \<and>
                          commit_partitionBy c = [''machine_id'', ''operation'', ''label'']) new"
    by blast
  have inv: "\<forall>f. Skipped f \<in> set (success_log st) \<or>
               Appended f \<in> set (success_log st) \<and> read_vibration_data (raw f) \<noteq> Inr [] \<longrightarrow>
               has_partition_dir t f"
    by (simp add: assms(3))
  from run_files_dirs[OF assms(1,2) inv, of fs] d
  have cov: "\<forall>f. Skipped f \<in> set (success_log (snd (run_files raw fs st))) \<or>
                 Appended f \<in> set (success_log (snd (run_files raw fs st))) \<and>
                 read_vibration_data (raw f) \<noteq> Inr [] \<longrightarrow>
                 has_partition_dir (t\<lparr>tbl_log := tbl_log t @ new\<rparr>) f"
    by simp
  from a have "list_all (\<lambda>c. commit_partitionBy c = [''machine_id'', ''operation'', ''label''])
                 new"
    by (simp add: list_all_iff)
  with d cov show ?thesis
    by (intro exI[of _ "t\<lparr>tbl_log := tbl_log t @ new\<rparr>"] exI[of _ new]) simp
qed

theorem partition_completeness_witness:
  "delta_dir (fresh_state (Some empty_table)) = Some empty_table \<and>
   list_all (\<lambda>c. commit_partitionBy c = [''machine_id'', ''operation'', ''label''])
     (tbl_log empty_table) \<and>
   success_log (fresh_state (Some empty_table)) = [] \<and>
   Appended other_path \<in>
     set (success_log (snd (run_files batch_raw [other_path, example_path]
                              (fresh_state (Some empty_table))))) \<and>
   read_vibration_data (batch_raw other_path) \<noteq> Inr [] \<and>
   (\<exists>t'. delta_dir (snd (run_files batch_raw [other_path, example_path]
                           (fresh_state (Some empty_table)))) = Some t' \<and>
         has_partition_dir t' other_path)"
proof -
  have h1: "delta_dir (fresh_state (Some empty_table)) = Some empty_table"
    and h3: "success_log (fresh_state (Some empty_table)) = []"
    by (simp_all add: fresh_state_def)
  have h2: "list_all (\<lambda>c. commit_partitionBy c = [''machine_id'', ''operation'', ''label''])
              (tbl_log empty_table)"
    by (simp add: empty_table_def)
  have a: "Appended other_path \<in>
     set (success_log (snd (run_files batch_raw [other_path, example_path]
                              (fresh_state (Some empty_table)))))"
    by code_simp
  have r: "read_vibration_data (batch_raw other_path) \<noteq> Inr []"
    by code_simp
  from partition_completeness[OF h1 h2 h3, of batch_raw "[other_path, example_path]"] a r
  have "\<exists>t'. delta_dir (snd (run_files batch_raw [other_path, example_path]
                           (fresh_state (Some empty_table)))) = Some t' \<and>
         has_partition_dir t' other_path"
    by blast
  with h1 h2 h3 a r show ?thesis by blast
qed

section \<open>The profiler\<close>






lemma scan_keys_no_2d:
  assumes "find is_2d objs = None" and "error (scan_keys objs r) = None"
  shows "num_rows (scan_keys objs r) = num_rows r \<and>
         num_columns (scan_keys objs r) = num_columns r"
  using assms
  by (induction objs r rule: scan_keys.induct)
    (auto simp: Let_def split: h5_object.splits option.splits attr_value.splits if_splits)




section \<open>The filename parser\<close>

lemma length_str_split: "length (str_split c s) = Suc (length (filter (\<lambda>d. d = c) s))"
  by (induction s) (auto split: list.splits)

lemma parse_filename_eq:
  "parse_filename name =
     (let parts = str_split CHR ''_'' (str_replace ''.h5'' '''' name)
      in if length parts < 5 then Inl IndexError
         else Inr \<lparr>machine_id = parts ! 0, month = parts ! 1, year = parts ! 2,
                   operation = parts ! 3, example_no = parts ! 4\<rparr>)"
  by (auto simp: parse_filename_def list_item_def Let_def)

lemma underscores_str_replace:
  "filter (\<lambda>d. d = CHR ''_'') (str_replace ''.h5'' '''' s) = filter (\<lambda>d. d = CHR ''_'') s"
proof (induction s rule: length_induct)
  case (1 s)
  show ?case
  proof (cases s)
    case Nil
    then show ?thesis by simp
  next
    case (Cons c cs)
    show ?thesis
    proof (cases "take 3 (c # cs) = ''.h5''")
      case True
      then have "c # cs = ''.h5'' @ drop 3 (c # cs)"
        by (metis append_take_drop_id)
      then have cs: "cs = ''h5'' @ drop 2 cs" and c: "c = CHR ''.''"
        by simp_all
      have "length (drop 2 cs) < length s"
        using Cons by simp
      with 1 have "filter (\<lambda>d. d = CHR ''_'') (str_replace ''.h5'' '''' (drop 2 cs)) =
                     filter (\<lambda>d. d = CHR ''_'') (drop 2 cs)"
        by blast
      moreover have "str_replace ''.h5'' '''' (c # cs) = str_replace ''.h5'' '''' (drop 2 cs)"
        using True by (simp add: numeral_2_eq_2 numeral_3_eq_3)
      moreover have "filter (\<lambda>d. d = CHR ''_'') (c # cs) = filter (\<lambda>d. d = CHR ''_'') (drop 2 cs)"
        by (subst (1) cs) (simp add: c)
      ultimately show ?thesis using Cons by simp
    next
      case False
      then have "str_replace ''.h5'' '''' (c # cs) = c # str_replace ''.h5'' '''' cs"
        by (auto simp add: numeral_2_eq_2 numeral_3_eq_3)
      moreover from 1 Cons have "filter (\<lambda>d. d = CHR ''_'') (str_replace ''.h5'' '''' cs) =
                     filter (\<lambda>d. d = CHR ''_'') cs"
        by simp
      ultimately show ?thesis using Cons by simp
    qed
  qed
qed

lemma underscores_remove_extension:
  "filter (\<lambda>d. d = CHR ''_'') (remove_extension s) = filter (\<lambda>d. d = CHR ''_'') s"
proof (cases "str_endswith s ''.h5''")
  case True
  then have "drop (length s - 3) s = ''.h5''"
    by (simp add: str_endswith_def numeral_3_eq_3)
  with append_take_drop_id[of "length s - 3" s] have "s = take (length s - 3) s @ ''.h5''"
    by simp
  then have "filter (\<lambda>d. d = CHR ''_'') s =
               filter (\<lambda>d. d = CHR ''_'') (take (length s - 3) s @ ''.h5'')"
    by simp
  with True show ?thesis by (simp add: remove_extension_def)
next
  case False
  then show ?thesis by (simp add: remove_extension_def)
qed

text \<open>The parser fails on exactly the names that have fewer than five segments once the
  extension is removed; \<open>replace\<close> leaves the underscores of a name in place.\<close>

lemma parse_filename_fails_iff:
  "(\<exists>e. parse_filename name = Inl e) \<longleftrightarrow>
     length (str_split CHR ''_'' (remove_extension name)) < 5"
  by (auto simp: parse_filename_eq Let_def length_str_split
      underscores_str_replace underscores_remove_extension)

text \<open>The parser agrees with the parser of the specification on a name in which \<open>.h5\<close>
  occurs as the extension only.\<close>

lemma parse_filename_refines:
  assumes "str_replace ''.h5'' '''' name = remove_extension name"
  shows "parse_filename name = spec_parse_filename name"
  using assms by (simp add: parse_filename_eq spec_parse_filename_def)

lemma remove_extension_double:
  "remove_extension ''M01_Feb_2019_OP00_004.h5.h5'' = ''M01_Feb_2019_OP00_004.h5''"
  by (simp add: remove_extension_def str_endswith_def)

text \<open>
  C6. The parser fails exactly when the base name without its extension has fewer than five
  segments (\<open>parse_filename_fails_iff\<close>), and the failure is a failure of that file only
  (\<open>process_file_parse_error\<close>). The fields it returns are not always the first five
  segments of the base name without its extension: \<open>replace\<close> removes every occurrence of
  \<open>.h5\<close>, where the listing of the files takes \<open>.h5\<close> as a suffix. For the base name
  \<open>M01_Feb_2019_OP00_004.h5.h5\<close> the parser returns the example number \<open>004\<close>, while the
  fifth segment of the name without its extension is \<open>004.h5\<close>; in a run, the file is then
  taken for the file \<open>M01_Feb_2019_OP00_004.h5\<close> of the same directory and skipped.
\<close>

theorem double_extension_parse:
  "parse_filename ''M01_Feb_2019_OP00_004.h5.h5'' =
     Inr \<lparr>machine_id = ''M01'', month = ''Feb'', year = ''2019'', operation = ''OP00'',
          example_no = ''004''\<rparr> \<and>
   spec_parse_filename ''M01_Feb_2019_OP00_004.h5.h5'' =
     Inr \<lparr>machine_id = ''M01'', month = ''Feb'', year = ''2019'', operation = ''OP00'',
          example_no = ''004.h5''\<rparr> \<and>
   fst (run_files (\<lambda>p. recording 2) [example_path, example_path @ ''.h5'']
          (fresh_state (Some empty_table))) =
     [Appended example_path, Skipped (example_path @ ''.h5'')]"
proof -
  have code: "parse_filename ''M01_Feb_2019_OP00_004.h5.h5'' =
     Inr \<lparr>machine_id = ''M01'', month = ''Feb'', year = ''2019'', operation = ''OP00'',
          example_no = ''004''\<rparr>"
    by code_simp
  have spec: "spec_parse_filename ''M01_Feb_2019_OP00_004.h5.h5'' =
     Inr \<lparr>machine_id = ''M01'', month = ''Feb'', year = ''2019'', operation = ''OP00'',
          example_no = ''004.h5''\<rparr>"
    by (simp add: spec_parse_filename_def remove_extension_double)
  have run: "fst (run_files (\<lambda>p. recording 2) [example_path, example_path @ ''.h5'']
          (fresh_state (Some empty_table))) =
     [Appended example_path, Skipped (example_path @ ''.h5'')]"
    by code_simp
  from code spec run show ?thesis by blast
qed

end
